theory Spec2Isabelle
  imports Main "HOL-Library.Sublist"
begin

section \<open>Python values and errors\<close>

text \<open>
  A shallow embedding of \<^verbatim>\<open>ggshield/secret/docker.py\<close>. Python strings are
  \<^typ>\<open>string\<close>; a \<^typ>\<open>char\<close> stands for a code point below 256.
  Every exception of the source is a value of \<open>error\<close>; a function that may raise
  returns \<open>error + 'a\<close> with \<open>Inl\<close> the exception.
\<close>

datatype error =
    InvalidDockerArchiveException string
  | UsageError string
  | UnexpectedError string
  | KeyError
  | IndexError
  | TypeError
  | AttributeError
  | AssertionError
  | JSONDecodeError
  | ReadError
  | RecursionError
  | OSError
  | EngineError

text \<open>
  The value \<^verbatim>\<open>json.load\<close> returns. An object is the Python dict, as an association
  list looked up with \<^const>\<open>map_of\<close>. Of a number only its being zero matters to the
  code modelled here (truthiness), so a number is an \<^typ>\<open>int\<close>.
\<close>

datatype json =
    JNull
  | JBool bool
  | JNum int
  | JStr string
  | JArr "json list"
  | JObj "(string \<times> json) list"

text \<open>Python truthiness, as \<^verbatim>\<open>not x\<close> and \<^verbatim>\<open>if x\<close> use it.\<close>

fun truthy :: "json \<Rightarrow> bool" where
  "truthy JNull = False"
| "truthy (JBool b) = b"
| "truthy (JNum n) = (n \<noteq> 0)"
| "truthy (JStr s) = (s \<noteq> [])"
| "truthy (JArr xs) = (xs \<noteq> [])"
| "truthy (JObj kvs) = (kvs \<noteq> [])"

text \<open>\<^verbatim>\<open>v[key]\<close> with a string key: only a dict can be indexed by a string.\<close>

fun subscript :: "json \<Rightarrow> string \<Rightarrow> error + json" where
  "subscript (JObj kvs) k = (case map_of kvs k of None \<Rightarrow> Inl KeyError | Some v \<Rightarrow> Inr v)"
| "subscript _ k = Inl TypeError"

text \<open>\<^verbatim>\<open>v[0]\<close>: the first element of a list or string; a dict parsed from JSON has
  string keys only, so the key \<open>0\<close> is missing.\<close>

fun subscript0 :: "json \<Rightarrow> error + json" where
  "subscript0 (JArr []) = Inl IndexError"
| "subscript0 (JArr (x # xs)) = Inr x"
| "subscript0 (JStr []) = Inl IndexError"
| "subscript0 (JStr (c # cs)) = Inr (JStr [c])"
| "subscript0 (JObj kvs) = Inl KeyError"
| "subscript0 _ = Inl TypeError"

text \<open>\<^verbatim>\<open>x.get(key)\<close>: a method of dicts only; a missing key gives \<^verbatim>\<open>None\<close>.\<close>

fun dict_get :: "json \<Rightarrow> string \<Rightarrow> error + json option" where
  "dict_get (JObj kvs) k = Inr (map_of kvs k)"
| "dict_get _ k = Inl AttributeError"

text \<open>Iteration (\<^verbatim>\<open>for x in v\<close>, \<^verbatim>\<open>zip\<close>): a list gives its elements, a string its
  characters, a dict its keys; nothing else is iterable.\<close>

fun iterate :: "json \<Rightarrow> error + json list" where
  "iterate (JArr xs) = Inr xs"
| "iterate (JStr s) = Inr (map (\<lambda>c. JStr [c]) s)"
| "iterate (JObj kvs) = Inr (map (\<lambda>kv. JStr (fst kv)) kvs)"
| "iterate _ = Inl TypeError"

section \<open>Regular expressions of the module\<close>

definition in_range :: "char \<Rightarrow> nat \<Rightarrow> nat \<Rightarrow> bool" where
  "in_range c lo hi = (lo \<le> of_char c \<and> (of_char c :: nat) \<le> hi)"

definition is_ascii_alnum :: "char \<Rightarrow> bool" where
  "is_ascii_alnum c = (in_range c 97 122 \<or> in_range c 65 90 \<or> in_range c 48 57)"

text \<open>\<^verbatim>\<open>\w\<close> of a \<^verbatim>\<open>str\<close> pattern: alphanumeric code points and the underscore.
  Below 256 the alphanumerics outside ASCII are U+00AA, U+00B2, U+00B3, U+00B5, U+00B9,
  U+00BA, U+00BC to U+00BE, and U+00C0 to U+00FF without U+00D7 and U+00F7.\<close>

definition is_word_char :: "char \<Rightarrow> bool" where
  "is_word_char c =
     (is_ascii_alnum c \<or> c = CHR ''_''
      \<or> of_char c \<in> {170, 178, 179, 181, 185, 186 :: nat}
      \<or> in_range c 188 190
      \<or> (in_range c 192 255 \<and> of_char c \<notin> {215, 247 :: nat}))"

text \<open>Lower-casing of an ASCII capital; \<^verbatim>\<open>re.IGNORECASE\<close> compares a subject character
  with a pattern letter of \<^verbatim>\<open>copy\<close> and \<^verbatim>\<open>add\<close> through it.\<close>

definition ascii_lower :: "char \<Rightarrow> char" where
  "ascii_lower c =
     (case map_of (zip ''ABCDEFGHIJKLMNOPQRSTUVWXYZ'' ''abcdefghijklmnopqrstuvwxyz'') c of
        Some l \<Rightarrow> l
      | None \<Rightarrow> c)"

text \<open>A literal of the pattern matched case-insensitively at the start of the subject;
  the result is the rest of the subject.\<close>

fun match_lit :: "string \<Rightarrow> string \<Rightarrow> string option" where
  "match_lit [] s = Some s"
| "match_lit (p # ps) [] = None"
| "match_lit (p # ps) (c # cs) = (if ascii_lower c = p then match_lit ps cs else None)"

text \<open>\<^verbatim>\<open>\b\<close>: the character before and the character after differ in being word
  characters; beyond either end of the subject there is no word character.\<close>

definition word_boundary :: "bool \<Rightarrow> string \<Rightarrow> bool" where
  "word_boundary prev_word rest =
     (prev_word \<noteq> (case rest of [] \<Rightarrow> False | c # _ \<Rightarrow> is_word_char c))"

text \<open>\<^verbatim>\<open>\b(copy|add)\b\<close> matched at the current position; \<open>prev_word\<close> tells whether
  the character before the position is a word character. Both alternatives end in a
  letter, so the closing \<^verbatim>\<open>\b\<close> has a word character before it.\<close>

definition layer_pattern_here :: "bool \<Rightarrow> string \<Rightarrow> bool" where
  "layer_pattern_here prev_word s =
     (word_boundary prev_word s \<and>
      ((case match_lit ''copy'' s of Some r \<Rightarrow> word_boundary True r | None \<Rightarrow> False) \<or>
       (case match_lit ''add'' s of Some r \<Rightarrow> word_boundary True r | None \<Rightarrow> False)))"

fun layer_pattern_from :: "bool \<Rightarrow> string \<Rightarrow> bool" where
  "layer_pattern_from prev_word [] = layer_pattern_here prev_word []"
| "layer_pattern_from prev_word (c # cs) =
     (layer_pattern_here prev_word (c # cs) \<or> layer_pattern_from (is_word_char c) cs)"

text \<open>\<^verbatim>\<open>LAYER_TO_SCAN_PATTERN.search(s) is not None\<close>.\<close>

definition LAYER_TO_SCAN_PATTERN_search :: "string \<Rightarrow> bool" where
  "LAYER_TO_SCAN_PATTERN_search s = layer_pattern_from False s"

section \<open>Layer descriptors\<close>

text \<open>The dataclass \<^verbatim>\<open>LayerInfo\<close>. Its fields are annotated \<^verbatim>\<open>str\<close>, but a dataclass
  does not check them and they are filled from parsed JSON, so they hold JSON values.\<close>

record LayerInfo =
  filename :: json
  command :: json
  diff_id :: json

text \<open>\<^verbatim>\<open>LayerInfo.should_scan\<close>. The comparison with \<^verbatim>\<open>""\<close> is false for a value that
  is not a string, and \<^verbatim>\<open>search\<close> then raises \<^verbatim>\<open>TypeError\<close>.\<close>

definition should_scan :: "LayerInfo \<Rightarrow> error + bool" where
  "should_scan l =
     (if command l = JStr [] then Inr True
      else (case command l of
              JStr s \<Rightarrow> Inr (LAYER_TO_SCAN_PATTERN_search s)
            | _ \<Rightarrow> Inl TypeError))"

text \<open>The classification in the words of the specification: the command contains the
  word \<open>w\<close>, in any letter case, with no word character directly before or after it.\<close>

definition contains_word :: "string \<Rightarrow> string \<Rightarrow> bool" where
  "contains_word s w =
     (\<exists>pre m post. s = pre @ m @ post \<and> map ascii_lower m = w
        \<and> (pre = [] \<or> \<not> is_word_char (last pre))
        \<and> (post = [] \<or> \<not> is_word_char (hd post)))"

text \<open>Auxiliary notions for the proofs about the pattern: the word \<open>w\<close> stands at the
  start of \<open>s\<close> and ends at a boundary; one of the two words does; one of them occurs
  somewhere in \<open>s\<close>, given whether a word character precedes \<open>s\<close>.\<close>

definition word_at_start :: "string \<Rightarrow> string \<Rightarrow> bool" where
  "word_at_start w s =
     (\<exists>m post. s = m @ post \<and> map ascii_lower m = w
        \<and> (post = [] \<or> \<not> is_word_char (hd post)))"

definition word_here :: "string \<Rightarrow> bool" where
  "word_here s = (word_at_start ''copy'' s \<or> word_at_start ''add'' s)"

definition occurs :: "bool \<Rightarrow> string \<Rightarrow> bool" where
  "occurs pw s =
     (\<exists>pre rest. s = pre @ rest \<and> word_here rest
        \<and> (if pre = [] then \<not> pw else \<not> is_word_char (last pre)))"

section \<open>Image names and the docker subprocess\<close>

text \<open>The character classes of \<^verbatim>\<open>TAG_PATTERN\<close>: \<^verbatim>\<open>[a-zA-Z0-9_]\<close> and
  \<^verbatim>\<open>[-.a-zA-Z0-9_]\<close>.\<close>

definition tag_first :: "char \<Rightarrow> bool" where
  "tag_first c = (is_ascii_alnum c \<or> c = CHR ''_'')"

definition tag_char :: "char \<Rightarrow> bool" where
  "tag_char c = (c = CHR ''-'' \<or> c = CHR ''.'' \<or> is_ascii_alnum c \<or> c = CHR ''_'')"

text \<open>\<^verbatim>\<open>$\<close> without \<^verbatim>\<open>re.MULTILINE\<close>: the end of the subject, or the position just
  before a newline that is the last character of the subject.\<close>

definition at_end :: "string \<Rightarrow> bool" where
  "at_end s = (s = [] \<or> s = [CHR 0x0A])"

text \<open>\<^verbatim>\<open>[-.a-zA-Z0-9_]{0,n}$\<close> matched at the start of the subject.\<close>

fun tag_rest :: "nat \<Rightarrow> string \<Rightarrow> bool" where
  "tag_rest n [] = True"
| "tag_rest n (c # cs) = (at_end (c # cs) \<or> (0 < n \<and> tag_char c \<and> tag_rest (n - 1) cs))"

text \<open>\<^verbatim>\<open>TAG_PATTERN.search(s)\<close> finds a match: the pattern
  \<^verbatim>\<open>:[a-zA-Z0-9_][-.a-zA-Z0-9_]{0,127}$\<close> is tried at every position.\<close>

fun TAG_PATTERN_search :: "string \<Rightarrow> bool" where
  "TAG_PATTERN_search [] = False"
| "TAG_PATTERN_search (c # cs) =
     ((c = CHR '':'' \<and> (case cs of [] \<Rightarrow> False | d # ds \<Rightarrow> tag_first d \<and> tag_rest 127 ds))
      \<or> TAG_PATTERN_search cs)"

text \<open>The first statement of \<^verbatim>\<open>docker_save_to_tmp\<close>: the name the commands are run with.\<close>

definition image_name_for_save :: "string \<Rightarrow> string" where
  "image_name_for_save image_name =
     (if TAG_PATTERN_search image_name then image_name else image_name @ '':latest'')"

text \<open>In the words of the claim: the name ends in a colon, one character of the first
  class and at most 127 further tag characters.\<close>

definition ends_with_tag :: "string \<Rightarrow> bool" where
  "ends_with_tag s =
     (\<exists>pre c t. s = pre @ CHR '':'' # c # t \<and> tag_first c \<and> list_all tag_char t
        \<and> length t \<le> 127)"

text \<open>What \<^verbatim>\<open>subprocess.run(command, check=True, timeout=timeout)\<close> can end in: the
  process exits with a return code (a code other than 0 raises
  \<^verbatim>\<open>CalledProcessError\<close>), or the timeout expires. The string of \<open>Exited\<close> is
  \<^verbatim>\<open>str(exc.stderr)\<close>. The docker binary is outside the program: it is a function
  from the number of commands run before, the command and the timeout to the outcome.\<close>

datatype outcome = Exited int string | TimedOut

type_synonym docker = "nat \<Rightarrow> string list \<Rightarrow> int \<Rightarrow> outcome"

text \<open>\<^verbatim>\<open>" ".join(command)\<close>.\<close>

fun join_spaces :: "string list \<Rightarrow> string" where
  "join_spaces [] = []"
| "join_spaces [x] = x"
| "join_spaces (x # y # ys) = x @ '' '' @ join_spaces (y # ys)"

definition timed_out_message :: "string list \<Rightarrow> string" where
  "timed_out_message cmd = ''Command \"'' @ join_spaces cmd @ ''\" timed out''"

definition pull_command :: "string \<Rightarrow> string list" where
  "pull_command image_name = [''docker'', ''pull'', image_name]"

definition save_command :: "string \<Rightarrow> string \<Rightarrow> string list" where
  "save_command image_name destination_path =
     [''docker'', ''save'', image_name, ''-o'', destination_path]"

text \<open>\<^verbatim>\<open>docker_pull_image\<close>. The list of commands run so far is threaded through and
  returned extended.\<close>

definition docker_pull_image ::
  "docker \<Rightarrow> string \<Rightarrow> int \<Rightarrow> string list list \<Rightarrow> string list list \<times> (error + unit)" where
  "docker_pull_image docker image_name timeout tr =
     (let cmd = pull_command image_name in
      case docker (length tr) cmd timeout of
        Exited rc err \<Rightarrow>
          if rc = 0 then (tr @ [cmd], Inr ())
          else (tr @ [cmd], Inl (UsageError (''Image \"'' @ image_name @ ''\" not found'')))
      | TimedOut \<Rightarrow> (tr @ [cmd], Inl (UnexpectedError (timed_out_message cmd))))"

text \<open>The test on \<^verbatim>\<open>err_string\<close> in the handler of \<^verbatim>\<open>CalledProcessError\<close>.\<close>

definition image_not_found :: "string \<Rightarrow> bool" where
  "image_not_found err_string =
     (sublist ''No such image'' err_string \<or> sublist ''reference does not exist'' err_string)"

text \<open>\<^verbatim>\<open>docker_save_to_tmp\<close>. The function calls itself from its exception handler;
  the first argument is the number of nested calls the interpreter still allows, and a
  call beyond it raises \<^verbatim>\<open>RecursionError\<close>.\<close>

fun docker_save_to_tmp ::
  "nat \<Rightarrow> docker \<Rightarrow> string \<Rightarrow> string \<Rightarrow> int \<Rightarrow> string list list
     \<Rightarrow> string list list \<times> (error + unit)" where
  "docker_save_to_tmp 0 docker image_name destination_path timeout tr = (tr, Inl RecursionError)"
| "docker_save_to_tmp (Suc depth) docker image_name destination_path timeout tr =
     (let image_name = image_name_for_save image_name;
          cmd = save_command image_name destination_path in
      case docker (length tr) cmd timeout of
        Exited rc err_string \<Rightarrow>
          if rc = 0 then (tr @ [cmd], Inr ())
          else if image_not_found err_string then
            (case docker_pull_image docker image_name timeout (tr @ [cmd]) of
               (tr', Inl e) \<Rightarrow> (tr', Inl e)
             | (tr', Inr _) \<Rightarrow>
                 docker_save_to_tmp depth docker image_name destination_path timeout tr')
          else (tr @ [cmd],
                Inl (UnexpectedError (''Unable to save docker archive:'' @ [CHR 0x0A]
                                       @ ''Error: '' @ err_string)))
      | TimedOut \<Rightarrow> (tr @ [cmd], Inl (UnexpectedError (timed_out_message cmd))))"


text \<open>What follows the colon of a match of \<^verbatim>\<open>TAG_PATTERN\<close>, and the names the
  pattern matches in: those ending in a tag, or in a tag and one newline.\<close>

definition tag_suffix :: "string \<Rightarrow> bool" where
  "tag_suffix r =
     (\<exists>d t e. r = d # t @ e \<and> tag_first d \<and> list_all tag_char t \<and> length t \<le> 127
        \<and> at_end e)"

definition carries_tag :: "string \<Rightarrow> bool" where
  "carries_tag s = (ends_with_tag s \<or> (\<exists>m. s = m @ [CHR 0x0A] \<and> ends_with_tag m))"

text \<open>The two outcomes the retry of \<^verbatim>\<open>docker_save_to_tmp\<close> distinguishes: a failure
  with the image-not-found message, and success.\<close>

definition not_found_outcome :: "outcome \<Rightarrow> bool" where
  "not_found_outcome r =
     (case r of Exited rc err \<Rightarrow> rc \<noteq> 0 \<and> image_not_found err | TimedOut \<Rightarrow> False)"

definition success_outcome :: "outcome \<Rightarrow> bool" where
  "success_outcome r = (case r of Exited rc err \<Rightarrow> rc = 0 | TimedOut \<Rightarrow> False)"

text \<open>A docker that answers every command with the same outcome.\<close>

definition const_docker :: "outcome \<Rightarrow> docker" where
  "const_docker r i cmd timeout = r"

section \<open>Archives\<close>

text \<open>An entry of a layer archive, as \<^verbatim>\<open>tarfile.TarInfo\<close> describes it, together with
  the bytes the archive stores for it. Reading the entry gives at most \<open>ti_size\<close> bytes.\<close>

record TarInfo =
  ti_name :: string
  ti_size :: nat
  ti_isfile :: bool
  ti_data :: string

definition extractfile_read :: "TarInfo \<Rightarrow> string" where
  "extractfile_read ti = take (ti_size ti) (ti_data ti)"

text \<open>The bytes of a member of the image archive, by what the libraries make of them:
  \<^verbatim>\<open>json.load\<close> parses a JSON document and raises on anything else; \<^verbatim>\<open>tarfile.TarFile\<close>
  reads a tar archive and raises \<^verbatim>\<open>ReadError\<close> on anything else.\<close>

datatype file_body = JsonDoc json | LayerTar "TarInfo list" | Garbage

text \<open>What \<^verbatim>\<open>extractfile\<close> makes of an existing member: a file object for a regular file
  or a link to one, \<^verbatim>\<open>None\<close> for any other member.\<close>

datatype member = NotAFile | RegFile file_body

text \<open>The open image archive: its path, its members by name, and the address the
  interpreter gave the \<^verbatim>\<open>TarFile\<close> object, in hexadecimal.\<close>

record TarFile =
  tf_name :: string
  tf_members :: "(string \<times> member) list"
  tf_address :: string

text \<open>\<^verbatim>\<open>name.rstrip('/')\<close>, which \<^verbatim>\<open>getmember\<close> applies to the name it looks up.\<close>

definition rstrip_slash :: "string \<Rightarrow> string" where
  "rstrip_slash s = rev (dropWhile (\<lambda>c. c = CHR ''/'') (rev s))"

text \<open>\<^verbatim>\<open>TarFile.getmember\<close>: \<^verbatim>\<open>KeyError\<close> when no member has the name; it never
  returns \<^verbatim>\<open>None\<close>.\<close>

definition getmember :: "TarFile \<Rightarrow> string \<Rightarrow> error + member" where
  "getmember tf n =
     (case map_of (tf_members tf) (rstrip_slash n) of
        None \<Rightarrow> Inl KeyError
      | Some m \<Rightarrow> Inr m)"

text \<open>\<^verbatim>\<open>TarFile.extractfile\<close> called with a name: the result \<^verbatim>\<open>None\<close> is \<^const>\<open>None\<close>.\<close>

definition extractfile :: "TarFile \<Rightarrow> string \<Rightarrow> error + file_body option" where
  "extractfile tf n =
     (case getmember tf n of
        Inl e \<Rightarrow> Inl e
      | Inr NotAFile \<Rightarrow> Inr None
      | Inr (RegFile b) \<Rightarrow> Inr (Some b))"

definition json_load :: "file_body \<Rightarrow> error + json" where
  "json_load b = (case b of JsonDoc v \<Rightarrow> Inr v | _ \<Rightarrow> Inl JSONDecodeError)"

text \<open>The default \<^verbatim>\<open>str\<close> of an object whose class defines neither \<^verbatim>\<open>__str__\<close> nor
  \<^verbatim>\<open>__repr__\<close>, as \<^verbatim>\<open>tarfile.TarFile\<close> is.\<close>

definition str_TarFile :: "TarFile \<Rightarrow> string" where
  "str_TarFile tf = ''<tarfile.TarFile object at 0x'' @ tf_address tf @ ''>''"

section \<open>Scannable units\<close>

text \<open>\<^verbatim>\<open>DockerContentScannable\<close>: the layer identifier, the entry, and \<^verbatim>\<open>_content\<close>,
  the decoded text once it is known. The entry carries its bytes, so the handle of the
  layer archive is not a field here.\<close>

record DockerContentScannable =
  dcs_layer_id :: json
  dcs_tar_info :: TarInfo
  dcs_content :: "string option"

text \<open>The constructor sets \<^verbatim>\<open>_content\<close> to \<^verbatim>\<open>None\<close>.\<close>

definition new_DockerContentScannable :: "json \<Rightarrow> TarInfo \<Rightarrow> DockerContentScannable" where
  "new_DockerContentScannable lid ti =
     \<lparr>dcs_layer_id = lid, dcs_tar_info = ti, dcs_content = None\<rparr>"

text \<open>
  Modelled from the spec: \<^verbatim>\<open>Scannable._is_file_longer_than\<close> and
  \<^verbatim>\<open>Scannable._decode_bytes\<close> belong to \<^verbatim>\<open>ggshield.scan\<close>, which is not among the
  sources. The decoder is a parameter \<open>decode\<close> from bytes to text. Of the probe the
  specification says that it "decodes only as much as required to decide, caching
  whatever was decoded so a subsequent full read does not redo the work" and that it
  "must agree with \<open>content()\<close> length comparison for all sizes", the boundary being
  "not longer": it answers by the length of the decoded text and hands the text back
  when it decoded all of it.
\<close>

definition Scannable_is_file_longer_than ::
  "(string \<Rightarrow> string) \<Rightarrow> string \<Rightarrow> int \<Rightarrow> bool \<times> string option" where
  "Scannable_is_file_longer_than decode bytes sz =
     (let decoded = decode bytes in
      if int (length decoded) > sz then (True, None) else (False, Some decoded))"

text \<open>\<^verbatim>\<open>DockerContentScannable.is_longer_than\<close>; the result is paired with the object
  after the call. \<^verbatim>\<open>if self._content\<close> holds for a text that is neither \<^verbatim>\<open>None\<close> nor
  empty.\<close>

definition is_longer_than ::
  "(string \<Rightarrow> string) \<Rightarrow> DockerContentScannable \<Rightarrow> int \<Rightarrow> bool \<times> DockerContentScannable" where
  "is_longer_than decode s sz =
     (if (case dcs_content s of None \<Rightarrow> False | Some c \<Rightarrow> c \<noteq> [])
      then (int (length (the (dcs_content s))) > sz, s)
      else if int (ti_size (dcs_tar_info s)) < sz then (False, s)
      else (let (result, c) = Scannable_is_file_longer_than decode
                                (extractfile_read (dcs_tar_info s)) sz
            in (result, s\<lparr>dcs_content := c\<rparr>)))"

text \<open>The property \<^verbatim>\<open>DockerContentScannable.content\<close>, with the object after the call.\<close>

definition content :: "(string \<Rightarrow> string) \<Rightarrow> DockerContentScannable \<Rightarrow> string \<times> DockerContentScannable" where
  "content decode s =
     (case dcs_content s of
        None \<Rightarrow> (let c = decode (extractfile_read (dcs_tar_info s))
                 in (c, s\<lparr>dcs_content := Some c\<rparr>))
      | Some c \<Rightarrow> (c, s))"

text \<open>What \<^verbatim>\<open>_content\<close> can hold in an object the program has built and used: nothing
  yet, or the decoded text of the entry.\<close>

definition content_consistent :: "(string \<Rightarrow> string) \<Rightarrow> DockerContentScannable \<Rightarrow> bool" where
  "content_consistent decode s =
     (dcs_content s = None \<or> dcs_content s = Some (decode (extractfile_read (dcs_tar_info s))))"

text \<open>What is handed to the scanner: the \<^verbatim>\<open>StringScannable\<close> of the image
  configuration, with its name and, standing for \<^verbatim>\<open>json.dumps(image, indent=2)\<close>, the
  value dumped; or a file of a layer.\<close>

datatype Scannable = StringScannable string json | DockerContent DockerContentScannable

text \<open>A decoder for the examples: every byte is the character of the same code.\<close>

definition latin_decode :: "string \<Rightarrow> string" where
  "latin_decode b = b"

section \<open>The image and its layers\<close>

text \<open>A pattern \<^verbatim>\<open>^/?X\<close> of \<^verbatim>\<open>FILEPATH_BANLIST\<close> searched in a path: the path starts
  with \<open>X\<close>, after one slash or none.\<close>

definition banned_prefix :: "string \<Rightarrow> string \<Rightarrow> bool" where
  "banned_prefix x p = (prefix x p \<or> prefix (CHR ''/'' # x) p)"

text \<open>\<^verbatim>\<open>^/?usr/(?!share/nginx)\<close>: what follows \<^verbatim>\<open>usr/\<close> must not start with
  \<^verbatim>\<open>share/nginx\<close>.\<close>

definition banned_usr :: "string \<Rightarrow> bool" where
  "banned_usr p =
     ((prefix ''usr/'' p \<and> \<not> prefix ''share/nginx'' (drop 4 p))
      \<or> (prefix ''/usr/'' p \<and> \<not> prefix ''share/nginx'' (drop 5 p)))"

definition FILEPATH_BANLIST_match :: "string \<Rightarrow> bool" where
  "FILEPATH_BANLIST_match p =
     (banned_usr p \<or>
      list_ex (\<lambda>x. banned_prefix x p)
        [''lib/'', ''share/'', ''bin/'', ''sbin/'', ''node_modules/'', ''include/'',
         ''vendor/'', ''texlive/'', ''var/'', ''fonts/'', ''npm/'', ''site-packages/''])"

text \<open>\<^verbatim>\<open>_validate_filepath\<close>. The classifier \<^verbatim>\<open>is_path_binary\<close> belongs to
  \<^verbatim>\<open>ggshield.core.file_utils\<close>, which is not among the sources; it is a parameter.\<close>

definition validate_filepath :: "(string \<Rightarrow> bool) \<Rightarrow> string \<Rightarrow> bool" where
  "validate_filepath is_path_binary filepath =
     (if FILEPATH_BANLIST_match filepath then False
      else if is_path_binary filepath then False
      else True)"

text \<open>\<^verbatim>\<open>DockerImage\<close>: the open archive, the first entry of \<^verbatim>\<open>manifest.json\<close>, the
  image JSON, the scannable of the configuration, and the layers to scan.\<close>

record DockerImage =
  tar_file :: TarFile
  manifest :: json
  image :: json
  config_scannable :: Scannable
  layer_infos :: "LayerInfo list"

text \<open>\<^verbatim>\<open>_load_manifest\<close>: the value stored in \<^verbatim>\<open>self.manifest\<close>.\<close>

definition load_manifest :: "TarFile \<Rightarrow> error + json" where
  "load_manifest tf =
     (case extractfile tf ''manifest.json'' of
        Inl e \<Rightarrow> Inl e
      | Inr None \<Rightarrow> Inl (InvalidDockerArchiveException ''No manifest file found.'')
      | Inr (Some manifest_file) \<Rightarrow>
          (case json_load manifest_file of
             Inl e \<Rightarrow> Inl e
           | Inr v \<Rightarrow> subscript0 v))"

text \<open>\<^verbatim>\<open>_load_image\<close>: the value stored in \<^verbatim>\<open>self.image\<close>. Only the \<^verbatim>\<open>KeyError\<close> of
  \<^verbatim>\<open>self.manifest["Config"]\<close> is caught. A path that is not a string has no
  \<^verbatim>\<open>rstrip\<close> for \<^verbatim>\<open>getmember\<close> to call.\<close>

definition load_image :: "TarFile \<Rightarrow> json \<Rightarrow> error + json" where
  "load_image tf mf =
     (case subscript mf ''Config'' of
        Inl KeyError \<Rightarrow> Inl (InvalidDockerArchiveException ''No Config key in manifest.'')
      | Inl e \<Rightarrow> Inl e
      | Inr (JStr config_file_path) \<Rightarrow>
          (case getmember tf config_file_path of
             Inl e \<Rightarrow> Inl e
           | Inr NotAFile \<Rightarrow>
               Inl (InvalidDockerArchiveException ''Config file could not be extracted.'')
           | Inr (RegFile config_file) \<Rightarrow> json_load config_file)
      | Inr _ \<Rightarrow> Inl AttributeError)"

text \<open>\<^verbatim>\<open>[x for x in self.image["history"] if not x.get("empty_layer")]\<close> over the
  elements already obtained by iteration.\<close>

fun non_empty_entries :: "json list \<Rightarrow> error + json list" where
  "non_empty_entries [] = Inr []"
| "non_empty_entries (x # xs) =
     (case dict_get x ''empty_layer'' of
        Inl e \<Rightarrow> Inl e
      | Inr marker \<Rightarrow>
          (case non_empty_entries xs of
             Inl e \<Rightarrow> Inl e
           | Inr ys \<Rightarrow>
               Inr (if (case marker of None \<Rightarrow> False | Some v \<Rightarrow> truthy v) then ys
                    else x # ys)))"

text \<open>\<^verbatim>\<open>history.get("created_by", "")\<close> for an entry that passed the filter above
  and so is a dict.\<close>

definition created_by :: "json \<Rightarrow> json" where
  "created_by history =
     (case dict_get history ''created_by'' of
        Inr (Some v) \<Rightarrow> v
      | _ \<Rightarrow> JStr [])"

text \<open>The first list comprehension of \<^verbatim>\<open>_load_layer_infos\<close>: \<^verbatim>\<open>zip\<close> stops at the
  end of its shortest argument.\<close>

definition zip_layer_infos :: "json list \<Rightarrow> json list \<Rightarrow> json list \<Rightarrow> LayerInfo list" where
  "zip_layer_infos layer_filenames entries diff_ids =
     map (\<lambda>(f, h, d). \<lparr>filename = f, command = created_by h, diff_id = d\<rparr>)
       (zip layer_filenames (zip entries diff_ids))"

text \<open>\<^verbatim>\<open>[x for x in layer_infos if x.should_scan()]\<close>.\<close>

fun filter_should_scan :: "LayerInfo list \<Rightarrow> error + LayerInfo list" where
  "filter_should_scan [] = Inr []"
| "filter_should_scan (x # xs) =
     (case should_scan x of
        Inl e \<Rightarrow> Inl e
      | Inr keep \<Rightarrow>
          (case filter_should_scan xs of
             Inl e \<Rightarrow> Inl e
           | Inr ys \<Rightarrow> Inr (if keep then x # ys else ys)))"

text \<open>\<^verbatim>\<open>_load_layer_infos\<close>: the value stored in \<^verbatim>\<open>self.layer_infos\<close>. The statements
  run in the order of the source, so the first one that raises decides the error.\<close>

definition load_layer_infos :: "json \<Rightarrow> json \<Rightarrow> error + LayerInfo list" where
  "load_layer_infos mf img =
     (case subscript mf ''Layers'' of
        Inl e \<Rightarrow> Inl e
      | Inr layer_filenames \<Rightarrow>
     (case subscript img ''history'' of
        Inl e \<Rightarrow> Inl e
      | Inr history \<Rightarrow>
     (case iterate history of
        Inl e \<Rightarrow> Inl e
      | Inr entries \<Rightarrow>
     (case non_empty_entries entries of
        Inl e \<Rightarrow> Inl e
      | Inr non_empty_history_entries \<Rightarrow>
     (case subscript img ''rootfs'' of
        Inl e \<Rightarrow> Inl e
      | Inr rootfs \<Rightarrow>
     (case subscript rootfs ''diff_ids'' of
        Inl e \<Rightarrow> Inl e
      | Inr diff_ids \<Rightarrow>
     (case iterate layer_filenames of
        Inl e \<Rightarrow> Inl e
      | Inr fs \<Rightarrow>
     (case iterate diff_ids of
        Inl e \<Rightarrow> Inl e
      | Inr ds \<Rightarrow>
          filter_should_scan (zip_layer_infos fs non_empty_history_entries ds)))))))))"

text \<open>\<^verbatim>\<open>DockerImage.__init__\<close>.\<close>

definition new_DockerImage :: "TarFile \<Rightarrow> error + DockerImage" where
  "new_DockerImage tf =
     (case load_manifest tf of
        Inl e \<Rightarrow> Inl e
      | Inr mf \<Rightarrow>
     (case load_image tf mf of
        Inl e \<Rightarrow> Inl e
      | Inr img \<Rightarrow>
     (case load_layer_infos mf img of
        Inl e \<Rightarrow> Inl e
      | Inr infos \<Rightarrow>
          Inr \<lparr>tar_file = tf, manifest = mf, image = img,
               config_scannable = StringScannable ''Dockerfile or build-args'' img,
               layer_infos = infos\<rparr>)))"

text \<open>The loop of \<^verbatim>\<open>_get_layer_scannables\<close> over the entries of the layer archive.\<close>

definition layer_scannables :: "(string \<Rightarrow> bool) \<Rightarrow> json \<Rightarrow> TarInfo list \<Rightarrow> Scannable list" where
  "layer_scannables is_path_binary lid entries =
     map (\<lambda>file_info. DockerContent (new_DockerContentScannable lid file_info))
       (filter (\<lambda>file_info. ti_isfile file_info \<and> ti_size file_info \<noteq> 0
                  \<and> validate_filepath is_path_binary (ti_name file_info)) entries)"

text \<open>\<^verbatim>\<open>DockerImage.get_layer\<close>: the files of the layer. \<^verbatim>\<open>os.path.join\<close> raises for a
  file name that is not a string. When \<^verbatim>\<open>extractfile\<close> gives \<^verbatim>\<open>None\<close>,
  \<^verbatim>\<open>tarfile.TarFile\<close> opens the joined path itself, a path below the archive file,
  which fails.\<close>

definition get_layer :: "(string \<Rightarrow> bool) \<Rightarrow> DockerImage \<Rightarrow> LayerInfo \<Rightarrow> error + Scannable list" where
  "get_layer is_path_binary docker_image layer_info =
     (case filename layer_info of
        JStr layer_filename \<Rightarrow>
          (case extractfile (tar_file docker_image) layer_filename of
             Inl e \<Rightarrow> Inl e
           | Inr None \<Rightarrow> Inl OSError
           | Inr (Some (LayerTar entries)) \<Rightarrow>
               Inr (layer_scannables is_path_binary (diff_id layer_info) entries)
           | Inr (Some _) \<Rightarrow> Inl ReadError)
      | _ \<Rightarrow> Inl TypeError)"

text \<open>A history entry is marked empty: it has a key \<^verbatim>\<open>empty_layer\<close> with a value
  that Python takes for true. A descriptor is scan-worthy: \<open>should_scan\<close> returns
  true for it.\<close>

definition marked_empty :: "json \<Rightarrow> bool" where
  "marked_empty x = (case dict_get x ''empty_layer'' of Inr (Some v) \<Rightarrow> truthy v | _ \<Rightarrow> False)"

definition scan_worthy :: "LayerInfo \<Rightarrow> bool" where
  "scan_worthy x = (should_scan x = Inr True)"

text \<open>An archive whose three lists have the lengths 1, 2 and 3.\<close>

definition mismatched_manifest :: json where
  "mismatched_manifest =
     JObj [(''Config'', JStr ''config.json''), (''Layers'', JArr [JStr ''a/layer.tar''])]"

definition mismatched_image :: json where
  "mismatched_image =
     JObj [(''history'', JArr [JObj [(''created_by'', JStr ''COPY . /app'')],
                              JObj [(''created_by'', JStr ''ADD x /'')]]),
           (''rootfs'', JObj [(''diff_ids'',
                              JArr [JStr ''sha256:1'', JStr ''sha256:2'', JStr ''sha256:3''])])]"

definition mismatched_archive :: TarFile where
  "mismatched_archive =
     \<lparr>tf_name = ''/tmp/image.tar'',
      tf_members = [(''manifest.json'', RegFile (JsonDoc (JArr [mismatched_manifest]))),
                    (''config.json'', RegFile (JsonDoc mismatched_image)),
                    (''a/layer.tar'', RegFile (LayerTar []))],
      tf_address = ''7f3a5c0d5e50''\<rparr>"

text \<open>An archive with one layer, built by a \<^verbatim>\<open>RUN\<close> command; its three lists have
  length 1.\<close>

definition run_manifest :: json where
  "run_manifest =
     JObj [(''Config'', JStr ''config.json''), (''Layers'', JArr [JStr ''a/layer.tar''])]"

definition run_image :: json where
  "run_image =
     JObj [(''history'', JArr [JObj [(''created_by'', JStr ''RUN apt-get update'')]]),
           (''rootfs'', JObj [(''diff_ids'', JArr [JStr ''sha256:1''])])]"

text \<open>An image with two layers and one history entry marked empty.\<close>

definition two_layer_manifest :: json where
  "two_layer_manifest =
     JObj [(''Config'', JStr ''config.json''),
           (''Layers'', JArr [JStr ''a/layer.tar'', JStr ''b/layer.tar''])]"

definition two_layer_history :: "json list" where
  "two_layer_history =
     [JObj [(''created_by'', JStr ''ENV FOO=bar'')],
      JObj [(''created_by'', JStr ''CMD [\"sh\"]''), (''empty_layer'', JBool True)],
      JObj [(''created_by'', JStr ''COPY secrets.txt /'')]]"

definition two_layer_image :: json where
  "two_layer_image =
     JObj [(''history'', JArr two_layer_history),
           (''rootfs'', JObj [(''diff_ids'', JArr [JStr ''sha256:1'', JStr ''sha256:2''])])]"

section \<open>The cache of clean layers\<close>

text \<open>A \<^verbatim>\<open>pathlib\<close> path on a POSIX system: its root (\<open>/\<close>, \<open>//\<close> or none) and its
  parts.\<close>

datatype PurePath = PurePath (path_root: string) (path_parts: "string list")

text \<open>\<^verbatim>\<open>s.split('/')\<close>.\<close>

fun split_slash :: "string \<Rightarrow> string list" where
  "split_slash [] = [[]]"
| "split_slash (c # cs) =
     (if c = CHR ''/'' then [] # split_slash cs
      else (case split_slash cs of
              [] \<Rightarrow> [[c]]
            | w # ws \<Rightarrow> (c # w) # ws))"

text \<open>\<^verbatim>\<open>Path(s)\<close>: exactly two leading slashes are kept as the root, any other number
  of them is one slash; empty parts and the parts \<open>.\<close> are dropped.\<close>

definition Path :: "string \<Rightarrow> PurePath" where
  "Path s =
     PurePath
       (if prefix ''//'' s \<and> \<not> prefix ''///'' s then ''//''
        else if prefix ''/'' s then ''/'' else [])
       (filter (\<lambda>p. p \<noteq> [] \<and> p \<noteq> ''.'') (split_slash s))"

text \<open>The operator \<^verbatim>\<open>/\<close> of paths with a string on the right: an absolute right side
  replaces the left side.\<close>

definition truediv :: "PurePath \<Rightarrow> string \<Rightarrow> PurePath" where
  "truediv p s =
     (if prefix ''/'' s then Path s
      else PurePath (path_root p) (path_parts p @ path_parts (Path s)))"

text \<open>
  Modelled from the spec: \<^verbatim>\<open>IDCache\<close> belongs to \<^verbatim>\<open>ggshield.scan.id_cache\<close>, which is
  not among the sources. The specification calls it "a persisted set of content-addressed
  layer identifiers", with a membership test and an idempotent insert that is
  "persisted durably before the call returns". A cache object is the path of its file;
  the files are a store from paths to sets of identifiers.
\<close>

type_synonym id_store = "PurePath \<Rightarrow> json set"

definition IDCache_contains :: "id_store \<Rightarrow> PurePath \<Rightarrow> json \<Rightarrow> bool" where
  "IDCache_contains st cache i = (i \<in> st cache)"

definition IDCache_add :: "id_store \<Rightarrow> PurePath \<Rightarrow> json \<Rightarrow> id_store" where
  "IDCache_add st cache i = st(cache := insert i (st cache))"

definition empty_store :: id_store where
  "empty_store p = {}"

text \<open>\<^verbatim>\<open>_get_layer_id_cache\<close>: the cache at
  \<^verbatim>\<open>Path(get_cache_dir()) / "docker" / f"{secrets_engine_version}.json"\<close>. The directory
  \<^verbatim>\<open>get_cache_dir()\<close> comes from \<^verbatim>\<open>ggshield.core.dirs\<close>, which is not among the sources;
  it is the first argument.\<close>

definition get_layer_id_cache :: "string \<Rightarrow> string \<Rightarrow> PurePath" where
  "get_layer_id_cache cache_dir secrets_engine_version =
     truediv (truediv (Path cache_dir) ''docker'') (secrets_engine_version @ ''.json'')"

section \<open>Scanning an archive\<close>

text \<open>What \<^verbatim>\<open>docker_scan_archive\<close> receives from outside: the scan of the
  \<^verbatim>\<open>SecretScanner\<close> with the two operations on its results that the function uses, the
  binary-file classifier, \<^verbatim>\<open>tarfile.open\<close>, and the client's
  \<^verbatim>\<open>secrets_engine_version\<close>, with the cache directory. The results are of any type
  \<open>'r\<close>. \<^verbatim>\<open>Files\<close> is taken to keep the list it is given.\<close>

record 'r collaborators =
  scan :: "Scannable list \<Rightarrow> error + 'r"
  has_policy_breaks :: "'r \<Rightarrow> bool"
  extend_results :: "'r \<Rightarrow> 'r \<Rightarrow> 'r"
  is_path_binary :: "string \<Rightarrow> bool"
  tarfile_open :: "string \<Rightarrow> error + TarFile"
  secrets_engine_version :: "string option"
  get_cache_dir :: string

text \<open>What a run does, in order: a call of \<^verbatim>\<open>get_layer\<close> for the layer file named, a
  batch submitted to the scanner for the configuration (\<open>None\<close>) or for a layer, with
  what the scanner answered, an identifier added to the cache, a layer skipped because its
  identifier is in the cache.\<close>

datatype 'r event =
    GetLayer json
  | Submitted "json option" "Scannable list" "error + 'r"
  | CacheAdded json
  | LayerSkipped json

record 'r run_state =
  store :: id_store
  events :: "'r event list"

definition log_event :: "'r event \<Rightarrow> 'r run_state \<Rightarrow> 'r run_state" where
  "log_event e st = st\<lparr>events := events st @ [e]\<rparr>"

text \<open>The loop of \<^verbatim>\<open>docker_scan_archive\<close> over \<^verbatim>\<open>docker_image.layer_infos\<close>.\<close>

fun scan_layers ::
  "'r collaborators \<Rightarrow> PurePath \<Rightarrow> DockerImage \<Rightarrow> LayerInfo list \<Rightarrow> 'r \<Rightarrow> 'r run_state
     \<Rightarrow> 'r run_state \<times> (error + 'r)" where
  "scan_layers c layer_id_cache docker_image [] results st = (st, Inr results)"
| "scan_layers c layer_id_cache docker_image (info # infos) results st =
     (let st1 = log_event (GetLayer (filename info)) st in
      case get_layer (is_path_binary c) docker_image info of
        Inl e \<Rightarrow> (st1, Inl e)
      | Inr files \<Rightarrow>
          if length files = 0 then scan_layers c layer_id_cache docker_image infos results st1
          else if IDCache_contains (store st1) layer_id_cache (diff_id info)
          then scan_layers c layer_id_cache docker_image infos results
                 (log_event (LayerSkipped (diff_id info)) st1)
          else
            (case scan c files of
               Inl e \<Rightarrow> (log_event (Submitted (Some (diff_id info)) files (Inl e)) st1, Inl e)
             | Inr layer_results \<Rightarrow>
                 (let st2 = log_event (Submitted (Some (diff_id info)) files (Inr layer_results))
                              st1;
                      st3 = (if \<not> has_policy_breaks c layer_results
                             then log_event (CacheAdded (diff_id info))
                                    (st2\<lparr>store := IDCache_add (store st2) layer_id_cache
                                                    (diff_id info)\<rparr>)
                             else st2)
                  in scan_layers c layer_id_cache docker_image infos
                       (extend_results c results layer_results) st3)))"

text \<open>\<^verbatim>\<open>SecretScanCollection\<close>, with the three arguments the function passes.\<close>

record 'r SecretScanCollection =
  sc_id :: string
  sc_type :: string
  sc_results :: 'r

text \<open>\<^verbatim>\<open>docker_scan_archive\<close>. In the last statement \<^verbatim>\<open>archive\<close> is the
  \<^verbatim>\<open>TarFile\<close> bound by the \<^verbatim>\<open>with\<close> statement.\<close>

definition docker_scan_archive ::
  "'r collaborators \<Rightarrow> string \<Rightarrow> 'r run_state
     \<Rightarrow> 'r run_state \<times> (error + 'r SecretScanCollection)" where
  "docker_scan_archive c archive_path st =
     (case secrets_engine_version c of
        None \<Rightarrow> (st, Inl AssertionError)
      | Some version \<Rightarrow>
     (let layer_id_cache = get_layer_id_cache (get_cache_dir c) version in
      case tarfile_open c archive_path of
        Inl e \<Rightarrow> (st, Inl e)
      | Inr archive \<Rightarrow>
     (case new_DockerImage archive of
        Inl e \<Rightarrow> (st, Inl e)
      | Inr docker_image \<Rightarrow>
     (case scan c [config_scannable docker_image] of
        Inl e \<Rightarrow>
          (log_event (Submitted None [config_scannable docker_image] (Inl e)) st, Inl e)
      | Inr results \<Rightarrow>
     (case scan_layers c layer_id_cache docker_image (layer_infos docker_image) results
             (log_event (Submitted None [config_scannable docker_image] (Inr results)) st) of
        (st', Inl e) \<Rightarrow> (st', Inl e)
      | (st', Inr results') \<Rightarrow>
          (st', Inr \<lparr>sc_id = str_TarFile archive, sc_type = ''scan_docker_archive'',
                     sc_results = results'\<rparr>))))))"

text \<open>The identifiers added to the cache in a sequence of events, and the identifiers of
  the layers whose batch was submitted and answered without policy breaks.\<close>

definition added_ids :: "'r event list \<Rightarrow> json list" where
  "added_ids es = concat (map (\<lambda>e. case e of CacheAdded i \<Rightarrow> [i] | _ \<Rightarrow> []) es)"

definition clean_submitted :: "('r \<Rightarrow> bool) \<Rightarrow> 'r event list \<Rightarrow> json list" where
  "clean_submitted breaks es =
     concat (map (\<lambda>e. case e of
                         Submitted (Some i) files (Inr r) \<Rightarrow> if breaks r then [] else [i]
                       | _ \<Rightarrow> []) es)"

text \<open>No batch of a layer was submitted empty.\<close>

definition batches_nonempty :: "'r event list \<Rightarrow> bool" where
  "batches_nonempty es =
     list_all (\<lambda>e. case e of Submitted (Some i) files r \<Rightarrow> files \<noteq> [] | _ \<Rightarrow> True) es"


text \<open>The state a later run starts in: the cache files as the run left them, and no
  events yet.\<close>

definition later_run :: "'r run_state \<Rightarrow> 'r run_state" where
  "later_run st = st\<lparr>events := []\<rparr>"


section \<open>Example archives and collaborators\<close>

text \<open>An image with four layers: one with a secret, one clean, one whose only file lies
  under a banned directory, and one without a build command; and one history entry
  marked empty.\<close>

definition demo_manifest :: json where
  "demo_manifest =
     JObj [(''Config'', JStr ''config.json''),
           (''Layers'', JArr [JStr ''a/layer.tar'', JStr ''b/layer.tar'',
                             JStr ''c/layer.tar'', JStr ''d/layer.tar''])]"

definition demo_image :: json where
  "demo_image =
     JObj [(''history'',
            JArr [JObj [(''created_by'', JStr ''COPY secrets.txt /app/'')],
                  JObj [(''created_by'', JStr ''ENV MODE=prod''), (''empty_layer'', JBool True)],
                  JObj [(''created_by'', JStr ''ADD main.py /app/'')],
                  JObj [(''created_by'', JStr ''COPY libfoo.so /usr/lib/'')],
                  JObj []]),
           (''rootfs'',
            JObj [(''diff_ids'', JArr [JStr ''sha256:a'', JStr ''sha256:b'',
                                      JStr ''sha256:c'', JStr ''sha256:d''])])]"

definition secrets_entry :: TarInfo where
  "secrets_entry =
     \<lparr>ti_name = ''app/secrets.txt'', ti_size = 8, ti_isfile = True, ti_data = ''password''\<rparr>"

definition main_entry :: TarInfo where
  "main_entry =
     \<lparr>ti_name = ''app/main.py'', ti_size = 8, ti_isfile = True, ti_data = ''print(1)''\<rparr>"

definition app_dir_entry :: TarInfo where
  "app_dir_entry = \<lparr>ti_name = ''app'', ti_size = 0, ti_isfile = False, ti_data = []\<rparr>"

definition lib_entry :: TarInfo where
  "lib_entry =
     \<lparr>ti_name = ''usr/lib/libfoo.so'', ti_size = 4, ti_isfile = True, ti_data = ''ELF!''\<rparr>"

definition motd_entry :: TarInfo where
  "motd_entry = \<lparr>ti_name = ''etc/motd'', ti_size = 2, ti_isfile = True, ti_data = ''hi''\<rparr>"

definition demo_archive :: TarFile where
  "demo_archive =
     \<lparr>tf_name = ''/tmp/image.tar'',
      tf_members = [(''manifest.json'', RegFile (JsonDoc (JArr [demo_manifest]))),
                    (''config.json'', RegFile (JsonDoc demo_image)),
                    (''a/layer.tar'', RegFile (LayerTar [secrets_entry])),
                    (''b/layer.tar'', RegFile (LayerTar [app_dir_entry, main_entry])),
                    (''c/layer.tar'', RegFile (LayerTar [lib_entry])),
                    (''d/layer.tar'', RegFile (LayerTar [motd_entry]))],
      tf_address = ''7f3a5c0d5e50''\<rparr>"

text \<open>Archives whose manifest is a directory, is not JSON, or lacks the key
  \<^verbatim>\<open>Config\<close>.\<close>

definition directory_manifest_archive :: TarFile where
  "directory_manifest_archive =
     \<lparr>tf_name = ''/tmp/image.tar'', tf_members = [(''manifest.json'', NotAFile)],
      tf_address = ''7f3a5c0d5e50''\<rparr>"

definition unparsable_manifest_archive :: TarFile where
  "unparsable_manifest_archive =
     \<lparr>tf_name = ''/tmp/image.tar'', tf_members = [(''manifest.json'', RegFile Garbage)],
      tf_address = ''7f3a5c0d5e50''\<rparr>"

definition no_config_archive :: TarFile where
  "no_config_archive =
     \<lparr>tf_name = ''/tmp/image.tar'',
      tf_members = [(''manifest.json'',
                     RegFile (JsonDoc (JArr [JObj [(''Layers'', JArr [JStr ''a/layer.tar''])]]))),
                    (''a/layer.tar'', RegFile (LayerTar [secrets_entry]))],
      tf_address = ''7f3a5c0d5e50''\<rparr>"

text \<open>A scanner that reports one policy break for each file named
  \<^verbatim>\<open>app/secrets.txt\<close>; its results are numbers of policy breaks.\<close>

definition is_secrets_file :: "Scannable \<Rightarrow> bool" where
  "is_secrets_file f =
     (case f of
        DockerContent u \<Rightarrow> ti_name (dcs_tar_info u) = ''app/secrets.txt''
      | StringScannable n v \<Rightarrow> False)"

definition demo_scan :: "Scannable list \<Rightarrow> error + nat" where
  "demo_scan files = Inr (length (filter is_secrets_file files))"

definition demo_open :: "TarFile \<Rightarrow> string \<Rightarrow> error + TarFile" where
  "demo_open archive p = (if p = ''/tmp/image.tar'' then Inr archive else Inl OSError)"

definition no_binaries :: "string \<Rightarrow> bool" where
  "no_binaries p = False"

definition demo_collaborators :: "TarFile \<Rightarrow> nat collaborators" where
  "demo_collaborators archive =
     \<lparr>scan = demo_scan, has_policy_breaks = (<) 0, extend_results = (+),
      is_path_binary = no_binaries, tarfile_open = demo_open archive,
      secrets_engine_version = Some ''1.29.0'',
      get_cache_dir = ''/home/u/.cache/ggshield''\<rparr>"

definition demo_cache :: PurePath where
  "demo_cache = PurePath ''/'' [''home'', ''u'', ''.cache'', ''ggshield'', ''docker'', ''1.29.0.json'']"

text \<open>The state before the run: the cache of the engine version holds the identifier
  of the fourth layer.\<close>

definition demo_state :: "nat run_state" where
  "demo_state = \<lparr>store = empty_store(demo_cache := {JStr ''sha256:d''}), events = []\<rparr>"

text \<open>The descriptors of the four layers of the example, and the events of its scan.\<close>

definition demo_layer_a :: LayerInfo where
  "demo_layer_a = \<lparr>filename = JStr ''a/layer.tar'', command = JStr ''COPY secrets.txt /app/'',
                    diff_id = JStr ''sha256:a''\<rparr>"

definition demo_layer_b :: LayerInfo where
  "demo_layer_b = \<lparr>filename = JStr ''b/layer.tar'', command = JStr ''ADD main.py /app/'',
                    diff_id = JStr ''sha256:b''\<rparr>"

definition demo_layer_c :: LayerInfo where
  "demo_layer_c = \<lparr>filename = JStr ''c/layer.tar'', command = JStr ''COPY libfoo.so /usr/lib/'',
                    diff_id = JStr ''sha256:c''\<rparr>"

definition demo_layer_d :: LayerInfo where
  "demo_layer_d = \<lparr>filename = JStr ''d/layer.tar'', command = JStr [],
                    diff_id = JStr ''sha256:d''\<rparr>"

definition demo_docker_image :: DockerImage where
  "demo_docker_image =
     \<lparr>tar_file = demo_archive, manifest = demo_manifest, image = demo_image,
      config_scannable = StringScannable ''Dockerfile or build-args'' demo_image,
      layer_infos = [demo_layer_a, demo_layer_b, demo_layer_c, demo_layer_d]\<rparr>"

definition demo_events :: "nat event list" where
  "demo_events =
     [Submitted None [StringScannable ''Dockerfile or build-args'' demo_image] (Inr 0),
      GetLayer (JStr ''a/layer.tar''),
      Submitted (Some (JStr ''sha256:a''))
        [DockerContent (new_DockerContentScannable (JStr ''sha256:a'') secrets_entry)] (Inr 1),
      GetLayer (JStr ''b/layer.tar''),
      Submitted (Some (JStr ''sha256:b''))
        [DockerContent (new_DockerContentScannable (JStr ''sha256:b'') main_entry)] (Inr 0),
      CacheAdded (JStr ''sha256:b''),
      GetLayer (JStr ''c/layer.tar''),
      GetLayer (JStr ''d/layer.tar''),
      LayerSkipped (JStr ''sha256:d'')]"

text \<open>The events of a second scan of the example, started from the cache the first
  scan left.\<close>

definition demo_rescan_events :: "nat event list" where
  "demo_rescan_events =
     [Submitted None [StringScannable ''Dockerfile or build-args'' demo_image] (Inr 0),
      GetLayer (JStr ''a/layer.tar''),
      Submitted (Some (JStr ''sha256:a''))
        [DockerContent (new_DockerContentScannable (JStr ''sha256:a'') secrets_entry)] (Inr 1),
      GetLayer (JStr ''b/layer.tar''),
      LayerSkipped (JStr ''sha256:b''),
      GetLayer (JStr ''c/layer.tar''),
      GetLayer (JStr ''d/layer.tar''),
      LayerSkipped (JStr ''sha256:d'')]"

section \<open>Verification: the layer classification\<close>



lemma ascii_lower_cases:
  "ascii_lower c = CHR ''c'' \<longleftrightarrow> c = CHR ''c'' \<or> c = CHR ''C''"
  "ascii_lower c = CHR ''a'' \<longleftrightarrow> c = CHR ''a'' \<or> c = CHR ''A''"
  "ascii_lower c = CHR ''y'' \<longleftrightarrow> c = CHR ''y'' \<or> c = CHR ''Y''"
  "ascii_lower c = CHR ''d'' \<longleftrightarrow> c = CHR ''d'' \<or> c = CHR ''D''"
  by (simp_all add: ascii_lower_def)

lemma is_word_char_letters:
  "is_word_char CHR ''c''" "is_word_char CHR ''C''" "is_word_char CHR ''a''" "is_word_char CHR ''A''"
  "is_word_char CHR ''y''" "is_word_char CHR ''Y''" "is_word_char CHR ''d''" "is_word_char CHR ''D''"
  by (simp_all add: is_word_char_def is_ascii_alnum_def in_range_def)

lemma word_char_of_letter:
  "ascii_lower c \<in> {CHR ''c'', CHR ''a'', CHR ''y'', CHR ''d''} \<Longrightarrow> is_word_char c"
  using is_word_char_letters by (auto simp: ascii_lower_cases)

lemma word_boundary_True: "word_boundary True r \<longleftrightarrow> (r = [] \<or> \<not> is_word_char (hd r))"
  by (cases r) (simp_all add: word_boundary_def)



lemma match_lit_append:
  "map ascii_lower m = p \<Longrightarrow> match_lit p (m @ r) = Some r"
proof (induction m arbitrary: p)
  case Nil
  then show ?case by simp
next
  case (Cons c m)
  then obtain ps where p: "p = ascii_lower c # ps" "map ascii_lower m = ps" by auto
  with Cons.IH [of ps] show ?case by simp
qed

lemma match_lit_Some:
  "match_lit p s = Some r \<Longrightarrow> \<exists>m. s = m @ r \<and> map ascii_lower m = p"
proof (induction p s rule: match_lit.induct)
  case (1 s)
  then show ?case by simp
next
  case (2 p ps)
  then show ?case by simp
next
  case (3 p ps c cs)
  from "3.prems" have a: "ascii_lower c = p" and b: "match_lit ps cs = Some r"
    by (simp_all split: if_splits)
  from "3.IH" [OF a b] obtain m where m: "cs = m @ r" "map ascii_lower m = ps" by blast
  have "c # cs = (c # m) @ r \<and> map ascii_lower (c # m) = p # ps"
    using a m by simp
  then show ?case by (rule exI)
qed

lemma match_lit_iff:
  "match_lit p s = Some r \<longleftrightarrow> (\<exists>m. s = m @ r \<and> map ascii_lower m = p)"
proof
  assume "match_lit p s = Some r"
  then show "\<exists>m. s = m @ r \<and> map ascii_lower m = p" by (rule match_lit_Some)
next
  assume "\<exists>m. s = m @ r \<and> map ascii_lower m = p"
  then obtain m where "s = m @ r" "map ascii_lower m = p" by (elim exE conjE)
  then show "match_lit p s = Some r" by (simp add: match_lit_append)
qed


lemma match_case_iff:
  "(case match_lit w s of Some r \<Rightarrow> word_boundary True r | None \<Rightarrow> False) \<longleftrightarrow> word_at_start w s"
proof (cases "match_lit w s")
  case None
  have "\<not> word_at_start w s"
  proof
    assume "word_at_start w s"
    then obtain m post where "s = m @ post" "map ascii_lower m = w"
      unfolding word_at_start_def by (elim exE conjE)
    then have "match_lit w s = Some post" by (simp add: match_lit_append)
    with None show False by simp
  qed
  with None show ?thesis by simp
next
  case (Some r)
  from match_lit_Some [OF Some] obtain m where m: "s = m @ r" "map ascii_lower m = w"
    by (elim exE conjE)
  show ?thesis
  proof
    assume "case match_lit w s of Some r \<Rightarrow> word_boundary True r | None \<Rightarrow> False"
    with Some have "r = [] \<or> \<not> is_word_char (hd r)" by (simp add: word_boundary_True)
    with m have "s = m @ r \<and> map ascii_lower m = w \<and> (r = [] \<or> \<not> is_word_char (hd r))"
      by simp
    then show "word_at_start w s" unfolding word_at_start_def by (intro exI)
  next
    assume "word_at_start w s"
    then obtain m' post where p: "s = m' @ post" "map ascii_lower m' = w"
      "post = [] \<or> \<not> is_word_char (hd post)"
      unfolding word_at_start_def by (elim exE conjE)
    then have "match_lit w s = Some post" by (simp add: match_lit_append)
    with Some have "post = r" by simp
    with p Some show "case match_lit w s of Some r \<Rightarrow> word_boundary True r | None \<Rightarrow> False"
      by (simp add: word_boundary_True)
  qed
qed

lemma word_at_start_first:
  assumes "word_at_start w s" and "w = x # w'"
  shows "\<exists>c cs. s = c # cs \<and> ascii_lower c = x"
proof -
  from assms(1) obtain m post where s: "s = m @ post" and m: "map ascii_lower m = w"
    unfolding word_at_start_def by (elim exE conjE)
  from m assms(2) obtain c m' where "m = c # m'" "ascii_lower c = x"
    by (cases m) simp_all
  with s have "s = c # (m' @ post) \<and> ascii_lower c = x" by simp
  then show ?thesis by (intro exI)
qed

lemma word_at_start_boundary:
  assumes "word_at_start ''copy'' s \<or> word_at_start ''add'' s"
  shows "word_boundary pw s \<longleftrightarrow> \<not> pw"
proof -
  from assms have "\<exists>c cs. s = c # cs \<and> (ascii_lower c = CHR ''c'' \<or> ascii_lower c = CHR ''a'')"
  proof
    assume "word_at_start ''copy'' s"
    from word_at_start_first [OF this, of "CHR ''c''" "''opy''"]
    have "\<exists>c cs. s = c # cs \<and> ascii_lower c = CHR ''c''" by simp
    then obtain c cs where "s = c # cs" "ascii_lower c = CHR ''c''" by (elim exE conjE)
    then have "s = c # cs \<and> (ascii_lower c = CHR ''c'' \<or> ascii_lower c = CHR ''a'')" by simp
    then show ?thesis by (intro exI)
  next
    assume "word_at_start ''add'' s"
    from word_at_start_first [OF this, of "CHR ''a''" "''dd''"]
    have "\<exists>c cs. s = c # cs \<and> ascii_lower c = CHR ''a''" by simp
    then obtain c cs where "s = c # cs" "ascii_lower c = CHR ''a''" by (elim exE conjE)
    then have "s = c # cs \<and> (ascii_lower c = CHR ''c'' \<or> ascii_lower c = CHR ''a'')" by simp
    then show ?thesis by (intro exI)
  qed
  then obtain c cs where s: "s = c # cs" and c: "ascii_lower c = CHR ''c'' \<or> ascii_lower c = CHR ''a''"
    by (elim exE conjE)
  from c have "is_word_char c" using word_char_of_letter [of c] by fastforce
  with s show ?thesis by (simp add: word_boundary_def)
qed

lemma layer_pattern_here_iff:
  "layer_pattern_here pw s \<longleftrightarrow> \<not> pw \<and> (word_at_start ''copy'' s \<or> word_at_start ''add'' s)"
  unfolding layer_pattern_here_def match_case_iff
  using word_at_start_boundary [of s pw] by fastforce


lemma not_word_here_Nil: "\<not> word_here []"
  by (simp add: word_here_def word_at_start_def)

lemma occurs_Nil: "\<not> occurs pw []"
  by (simp add: occurs_def not_word_here_Nil)

lemma occurs_Cons:
  "occurs pw (c # cs) \<longleftrightarrow> (\<not> pw \<and> word_here (c # cs)) \<or> occurs (is_word_char c) cs"
proof
  assume "occurs pw (c # cs)"
  then obtain pre rest where d: "c # cs = pre @ rest" "word_here rest"
    "if pre = [] then \<not> pw else \<not> is_word_char (last pre)"
    unfolding occurs_def by (elim exE conjE)
  show "(\<not> pw \<and> word_here (c # cs)) \<or> occurs (is_word_char c) cs"
  proof (cases pre)
    case Nil
    with d show ?thesis by simp
  next
    case (Cons x pre')
    with d have e: "cs = pre' @ rest" "x = c" by simp_all
    from d(3) Cons e have "if pre' = [] then \<not> is_word_char c else \<not> is_word_char (last pre')"
      by (simp split: if_splits)
    with e d(2) have "cs = pre' @ rest \<and> word_here rest
        \<and> (if pre' = [] then \<not> is_word_char c else \<not> is_word_char (last pre'))"
      by simp
    then have "occurs (is_word_char c) cs"
      unfolding occurs_def by (intro exI)
    then show ?thesis ..
  qed
next
  assume "(\<not> pw \<and> word_here (c # cs)) \<or> occurs (is_word_char c) cs"
  then show "occurs pw (c # cs)"
  proof
    assume "\<not> pw \<and> word_here (c # cs)"
    then have "c # cs = [] @ (c # cs) \<and> word_here (c # cs)
       \<and> (if [] = ([]::string) then \<not> pw else \<not> is_word_char (last []))"
      by simp
    then show ?thesis unfolding occurs_def by (intro exI)
  next
    assume "occurs (is_word_char c) cs"
    then obtain pre rest where d: "cs = pre @ rest" "word_here rest"
      "if pre = [] then \<not> is_word_char c else \<not> is_word_char (last pre)"
      unfolding occurs_def by (elim exE conjE)
    then have "c # cs = (c # pre) @ rest \<and> word_here rest
       \<and> (if c # pre = [] then \<not> pw else \<not> is_word_char (last (c # pre)))"
      by (simp split: if_splits)
    then show ?thesis unfolding occurs_def by (intro exI)
  qed
qed

lemma layer_pattern_from_iff: "layer_pattern_from pw s \<longleftrightarrow> occurs pw s"
proof (induction s arbitrary: pw)
  case Nil
  then show ?case
    using not_word_here_Nil by (simp add: layer_pattern_here_iff occurs_Nil word_here_def)
next
  case (Cons c cs)
  then show ?case by (simp add: layer_pattern_here_iff occurs_Cons word_here_def)
qed

lemma contains_word_iff:
  "contains_word s w \<longleftrightarrow>
     (\<exists>pre rest. s = pre @ rest \<and> word_at_start w rest \<and> (pre = [] \<or> \<not> is_word_char (last pre)))"
proof
  assume "contains_word s w"
  then obtain pre m post where d: "s = pre @ m @ post" "map ascii_lower m = w"
    "pre = [] \<or> \<not> is_word_char (last pre)" "post = [] \<or> \<not> is_word_char (hd post)"
    unfolding contains_word_def by (elim exE conjE)
  have "m @ post = m @ post \<and> map ascii_lower m = w \<and> (post = [] \<or> \<not> is_word_char (hd post))"
    using d by simp
  then have "word_at_start w (m @ post)" unfolding word_at_start_def by (intro exI)
  with d have "s = pre @ (m @ post) \<and> word_at_start w (m @ post)
      \<and> (pre = [] \<or> \<not> is_word_char (last pre))" by simp
  then show "\<exists>pre rest. s = pre @ rest \<and> word_at_start w rest \<and> (pre = [] \<or> \<not> is_word_char (last pre))"
    by (intro exI)
next
  assume "\<exists>pre rest. s = pre @ rest \<and> word_at_start w rest \<and> (pre = [] \<or> \<not> is_word_char (last pre))"
  then obtain pre rest where d: "s = pre @ rest" "word_at_start w rest"
    "pre = [] \<or> \<not> is_word_char (last pre)" by (elim exE conjE)
  from d(2) obtain m post where e: "rest = m @ post" "map ascii_lower m = w"
    "post = [] \<or> \<not> is_word_char (hd post)"
    unfolding word_at_start_def by (elim exE conjE)
  from d e have "s = pre @ m @ post \<and> map ascii_lower m = w
        \<and> (pre = [] \<or> \<not> is_word_char (last pre))
        \<and> (post = [] \<or> \<not> is_word_char (hd post))" by simp
  then show "contains_word s w" unfolding contains_word_def by (intro exI)
qed

lemma conj_mid_disj: "(A \<and> (B \<or> C) \<and> D) = ((A \<and> B \<and> D) \<or> (A \<and> C \<and> D))"
  by blast

lemma occurs_False_iff:
  "occurs False s \<longleftrightarrow> contains_word s ''copy'' \<or> contains_word s ''add''"
proof -
  have "occurs False s \<longleftrightarrow>
     (\<exists>pre rest. s = pre @ rest \<and> (word_at_start ''copy'' rest \<or> word_at_start ''add'' rest)
        \<and> (pre = [] \<or> \<not> is_word_char (last pre)))"
    unfolding occurs_def word_here_def
    by (rule arg_cong [where f = Ex], rule ext, rule arg_cong [where f = Ex], rule ext) simp
  also have "\<dots> \<longleftrightarrow> contains_word s ''copy'' \<or> contains_word s ''add''"
    unfolding contains_word_iff by (simp only: conj_mid_disj ex_disj_distrib)
  finally show ?thesis .
qed

lemma search_iff:
  "LAYER_TO_SCAN_PATTERN_search s \<longleftrightarrow> contains_word s ''copy'' \<or> contains_word s ''add''"
  by (simp only: LAYER_TO_SCAN_PATTERN_search_def layer_pattern_from_iff occurs_False_iff)

lemma ascii_lower_space: "ascii_lower c = CHR '' '' \<Longrightarrow> c = CHR '' ''"
  by (simp add: ascii_lower_def split: if_splits)

lemma copy_any_case:
  assumes "map ascii_lower c = ''copy . /app''"
  shows "contains_word c ''copy''"
proof -
  have "map ascii_lower (take 4 c) = take 4 (map ascii_lower c)"
    by (simp only: take_map)
  then have m: "map ascii_lower (take 4 c) = ''copy''"
    by (simp add: assms)
  have "map ascii_lower (drop 4 c) = drop 4 (map ascii_lower c)"
    by (simp only: drop_map)
  then have "map ascii_lower (drop 4 c) = '' . /app''"
    by (simp add: assms)
  then obtain x xs where x: "drop 4 c = x # xs" "ascii_lower x = CHR '' ''"
    by (cases "drop 4 c") simp_all
  then have "x = CHR '' ''" by (simp add: ascii_lower_space)
  then have "\<not> is_word_char x"
    by (simp add: is_word_char_def is_ascii_alnum_def in_range_def)
  with x have p: "\<not> is_word_char (hd (drop 4 c))" by simp
  have "c = [] @ take 4 c @ drop 4 c \<and> map ascii_lower (take 4 c) = ''copy''
        \<and> ([] = ([]::string) \<or> \<not> is_word_char (last []))
        \<and> (drop 4 c = [] \<or> \<not> is_word_char (hd (drop 4 c)))"
    using m p by simp
  then show ?thesis unfolding contains_word_def by (intro exI)
qed

lemma run_apt_get_no_match: "\<not> LAYER_TO_SCAN_PATTERN_search ''RUN apt-get update''"
  by (simp add: LAYER_TO_SCAN_PATTERN_search_def layer_pattern_here_def word_boundary_def
      ascii_lower_def in_range_def is_word_char_def is_ascii_alnum_def)

text \<open>
  Claim C2. For every layer descriptor whose command is a string, \<open>should_scan\<close>
  returns true exactly when the command is empty or contains the word \<open>copy\<close> or
  \<open>add\<close> as a whole word in any letter case. The command
  \<open>RUN apt-get update\<close> gives false, and \<open>COPY . /app\<close> written in any letter case
  gives true.
\<close>

theorem should_scan_classification:
  "should_scan \<lparr>filename = f, command = JStr c, diff_id = d\<rparr>
     = Inr (c = [] \<or> contains_word c ''copy'' \<or> contains_word c ''add'')
   \<and> should_scan \<lparr>filename = f, command = JStr ''RUN apt-get update'', diff_id = d\<rparr>
     = Inr False
   \<and> (map ascii_lower c' = ''copy . /app''
        \<longrightarrow> should_scan \<lparr>filename = f, command = JStr c', diff_id = d\<rparr> = Inr True)"
proof (intro conjI impI)
  show "should_scan \<lparr>filename = f, command = JStr c, diff_id = d\<rparr>
     = Inr (c = [] \<or> contains_word c ''copy'' \<or> contains_word c ''add'')"
    by (simp add: should_scan_def search_iff)
  show "should_scan \<lparr>filename = f, command = JStr ''RUN apt-get update'', diff_id = d\<rparr>
     = Inr False"
    using run_apt_get_no_match by (simp add: should_scan_def)
  assume "map ascii_lower c' = ''copy . /app''"
  then have "contains_word c' ''copy''" by (rule copy_any_case)
  then show "should_scan \<lparr>filename = f, command = JStr c', diff_id = d\<rparr> = Inr True"
    by (simp add: should_scan_def search_iff)
qed

theorem should_scan_classification_witness:
  "map ascii_lower ''CoPy . /App'' = ''copy . /app''
   \<and> should_scan \<lparr>filename = JStr ''a/layer.tar'', command = JStr ''CoPy . /App'',
        diff_id = JStr ''sha256:1''\<rparr> = Inr True
   \<and> contains_word ''CoPy . /App'' ''copy''"
proof -
  have h: "map ascii_lower ''CoPy . /App'' = ''copy . /app''"
    by (simp add: ascii_lower_def)
  note t = should_scan_classification [of "JStr ''a/layer.tar''" "''CoPy . /App''"
      "JStr ''sha256:1''" "''CoPy . /App''"]
  from t h have a: "should_scan \<lparr>filename = JStr ''a/layer.tar'', command = JStr ''CoPy . /App'',
        diff_id = JStr ''sha256:1''\<rparr> = Inr True"
    by (elim conjE) simp
  from h have "contains_word ''CoPy . /App'' ''copy''" by (rule copy_any_case)
  with h a show ?thesis by simp
qed

section \<open>Verification: image names and the retry of docker save\<close>

lemma tag_rest_intro:
  "list_all tag_char t \<Longrightarrow> length t \<le> n \<Longrightarrow> at_end e \<Longrightarrow> tag_rest n (t @ e)"
proof (induction t arbitrary: n)
  case Nil
  then show ?case by (cases e) simp_all
next
  case (Cons c t)
  from Cons.prems have "0 < n" "tag_char c" "list_all tag_char t" "length t \<le> n - 1"
    by simp_all
  with Cons.IH [of "n - 1"] Cons.prems(3) show ?case by simp
qed

lemma tag_rest_elim:
  "tag_rest n s \<Longrightarrow> \<exists>t e. s = t @ e \<and> list_all tag_char t \<and> length t \<le> n \<and> at_end e"
proof (induction s arbitrary: n)
  case Nil
  have "[] = [] @ [] \<and> list_all tag_char [] \<and> length ([]::string) \<le> n \<and> at_end []"
    by (simp add: at_end_def)
  then show ?case by (intro exI)
next
  case (Cons c cs)
  show ?case
  proof (cases "at_end (c # cs)")
    case True
    then have "c # cs = [] @ (c # cs) \<and> list_all tag_char [] \<and> length ([]::string) \<le> n
        \<and> at_end (c # cs)" by simp
    then show ?thesis by (intro exI)
  next
    case False
    with Cons.prems have p: "0 < n" "tag_char c" "tag_rest (n - 1) cs" by simp_all
    from Cons.IH [OF p(3)] obtain t e where
      q: "cs = t @ e" "list_all tag_char t" "length t \<le> n - 1" "at_end e"
      by (elim exE conjE)
    with p have "c # cs = (c # t) @ e \<and> list_all tag_char (c # t) \<and> length (c # t) \<le> n
        \<and> at_end e" by simp
    then show ?thesis by (intro exI)
  qed
qed

lemma tag_here_iff:
  "(case cs of [] \<Rightarrow> False | d # ds \<Rightarrow> tag_first d \<and> tag_rest 127 ds) \<longleftrightarrow> tag_suffix cs"
proof (cases cs)
  case Nil
  then show ?thesis by (simp add: tag_suffix_def)
next
  case (Cons d ds)
  show ?thesis
  proof
    assume "case cs of [] \<Rightarrow> False | d # ds \<Rightarrow> tag_first d \<and> tag_rest 127 ds"
    with Cons have a: "tag_first d" "tag_rest 127 ds" by simp_all
    from tag_rest_elim [OF a(2)] obtain t e where
      q: "ds = t @ e" "list_all tag_char t" "length t \<le> 127" "at_end e"
      by (elim exE conjE)
    with a Cons have "cs = d # t @ e \<and> tag_first d \<and> list_all tag_char t \<and> length t \<le> 127
        \<and> at_end e" by simp
    then show "tag_suffix cs" unfolding tag_suffix_def by (intro exI)
  next
    assume "tag_suffix cs"
    then obtain d' t e where q: "cs = d' # t @ e" "tag_first d'" "list_all tag_char t"
      "length t \<le> 127" "at_end e"
      unfolding tag_suffix_def by (elim exE conjE)
    with Cons have "d' = d" "ds = t @ e" by simp_all
    with q Cons show "case cs of [] \<Rightarrow> False | d # ds \<Rightarrow> tag_first d \<and> tag_rest 127 ds"
      by (simp add: tag_rest_intro)
  qed
qed

lemma TAG_PATTERN_search_iff:
  "TAG_PATTERN_search s \<longleftrightarrow> (\<exists>pre r. s = pre @ CHR '':'' # r \<and> tag_suffix r)"
proof (induction s)
  case Nil
  then show ?case by simp
next
  case (Cons c cs)
  show ?case
  proof
    assume "TAG_PATTERN_search (c # cs)"
    then have "(c = CHR '':'' \<and> tag_suffix cs) \<or> TAG_PATTERN_search cs"
      by (simp add: tag_here_iff)
    then show "\<exists>pre r. c # cs = pre @ CHR '':'' # r \<and> tag_suffix r"
    proof
      assume "c = CHR '':'' \<and> tag_suffix cs"
      then have "c # cs = [] @ CHR '':'' # cs \<and> tag_suffix cs" by simp
      then show ?thesis by (intro exI)
    next
      assume "TAG_PATTERN_search cs"
      with Cons.IH have "\<exists>pre r. cs = pre @ CHR '':'' # r \<and> tag_suffix r" by simp
      then obtain pre r where "cs = pre @ CHR '':'' # r" "tag_suffix r"
        by (elim exE conjE)
      then have "c # cs = (c # pre) @ CHR '':'' # r \<and> tag_suffix r" by simp
      then show ?thesis by (intro exI)
    qed
  next
    assume "\<exists>pre r. c # cs = pre @ CHR '':'' # r \<and> tag_suffix r"
    then obtain pre r where q: "c # cs = pre @ CHR '':'' # r" "tag_suffix r"
      by (elim exE conjE)
    show "TAG_PATTERN_search (c # cs)"
    proof (cases pre)
      case Nil
      with q show ?thesis by (simp add: tag_here_iff)
    next
      case (Cons x pre')
      with q have "cs = pre' @ CHR '':'' # r \<and> tag_suffix r" by simp
      then have "\<exists>pre r. cs = pre @ CHR '':'' # r \<and> tag_suffix r" by (intro exI)
      with Cons.IH have "TAG_PATTERN_search cs" by simp
      then show ?thesis by simp
    qed
  qed
qed


lemma newline_not_tag: "\<not> tag_char (CHR 0x0A)" "\<not> tag_first (CHR 0x0A)"
  by (simp_all add: tag_char_def tag_first_def is_ascii_alnum_def in_range_def)

lemma tag_first_char: "tag_first c \<Longrightarrow> tag_char c"
  by (simp add: tag_first_def tag_char_def)

lemma ends_with_tag_iff:
  "ends_with_tag s \<longleftrightarrow> (\<exists>pre r. s = pre @ CHR '':'' # r \<and> (\<exists>d t. r = d # t @ [] \<and> tag_first d
      \<and> list_all tag_char t \<and> length t \<le> 127))"
proof
  assume "ends_with_tag s"
  then obtain pre c t where q: "s = pre @ CHR '':'' # c # t" "tag_first c" "list_all tag_char t"
    "length t \<le> 127" unfolding ends_with_tag_def by (elim exE conjE)
  then have "c # t = c # t @ [] \<and> tag_first c \<and> list_all tag_char t \<and> length t \<le> 127"
    by simp
  then have "\<exists>d t'. c # t = d # t' @ [] \<and> tag_first d \<and> list_all tag_char t' \<and> length t' \<le> 127"
    by (intro exI)
  with q(1) have "s = pre @ CHR '':'' # (c # t) \<and> (\<exists>d t'. c # t = d # t' @ [] \<and> tag_first d
      \<and> list_all tag_char t' \<and> length t' \<le> 127)" by simp
  then show "\<exists>pre r. s = pre @ CHR '':'' # r \<and> (\<exists>d t. r = d # t @ [] \<and> tag_first d
      \<and> list_all tag_char t \<and> length t \<le> 127)" by (intro exI)
next
  assume "\<exists>pre r. s = pre @ CHR '':'' # r \<and> (\<exists>d t. r = d # t @ [] \<and> tag_first d
      \<and> list_all tag_char t \<and> length t \<le> 127)"
  then obtain pre r d t where "s = pre @ CHR '':'' # r" "r = d # t @ []" "tag_first d"
    "list_all tag_char t" "length t \<le> 127" by (elim exE conjE)
  then have "s = pre @ CHR '':'' # d # t \<and> tag_first d \<and> list_all tag_char t \<and> length t \<le> 127"
    by simp
  then show "ends_with_tag s" unfolding ends_with_tag_def by (intro exI)
qed

lemma search_of_ends_with_tag:
  assumes "ends_with_tag m" and "at_end e"
  shows "TAG_PATTERN_search (m @ e)"
proof -
  from assms(1) obtain pre c t where q: "m = pre @ CHR '':'' # c # t" "tag_first c"
    "list_all tag_char t" "length t \<le> 127" unfolding ends_with_tag_def by (elim exE conjE)
  with assms(2) have "c # t @ e = c # t @ e \<and> tag_first c \<and> list_all tag_char t
      \<and> length t \<le> 127 \<and> at_end e" by simp
  then have "tag_suffix (c # t @ e)" unfolding tag_suffix_def by (intro exI)
  with q(1) have "m @ e = pre @ CHR '':'' # (c # t @ e) \<and> tag_suffix (c # t @ e)" by simp
  then have "\<exists>pre r. m @ e = pre @ CHR '':'' # r \<and> tag_suffix r" by (intro exI)
  then show ?thesis by (simp only: TAG_PATTERN_search_iff)
qed

lemma carries_tag_of_search:
  assumes "TAG_PATTERN_search s"
  shows "carries_tag s"
proof -
  from assms obtain pre r where a: "s = pre @ CHR '':'' # r" "tag_suffix r"
    unfolding TAG_PATTERN_search_iff by (elim exE conjE)
  from a(2) obtain d t e where q: "r = d # t @ e" "tag_first d" "list_all tag_char t"
    "length t \<le> 127" "at_end e" unfolding tag_suffix_def by (elim exE conjE)
  have m: "ends_with_tag (pre @ CHR '':'' # d # t)"
  proof -
    have "pre @ CHR '':'' # d # t = pre @ CHR '':'' # d # t \<and> tag_first d \<and> list_all tag_char t
      \<and> length t \<le> 127" using q by simp
    then show ?thesis unfolding ends_with_tag_def by (intro exI)
  qed
  from q(5) show ?thesis
    unfolding at_end_def
  proof
    assume "e = []"
    with a q m show ?thesis by (simp add: carries_tag_def)
  next
    assume "e = [CHR 0x0A]"
    with a q have "s = (pre @ CHR '':'' # d # t) @ [CHR 0x0A]" by simp
    with m have "s = (pre @ CHR '':'' # d # t) @ [CHR 0x0A] \<and> ends_with_tag (pre @ CHR '':'' # d # t)"
      by simp
    then have "\<exists>m. s = m @ [CHR 0x0A] \<and> ends_with_tag m" by (intro exI)
    then show ?thesis by (simp add: carries_tag_def)
  qed
qed

lemma TAG_PATTERN_search_carries: "TAG_PATTERN_search s \<longleftrightarrow> carries_tag s"
proof
  assume "TAG_PATTERN_search s"
  then show "carries_tag s" by (rule carries_tag_of_search)
next
  assume "carries_tag s"
  then show "TAG_PATTERN_search s"
    unfolding carries_tag_def
  proof
    assume "ends_with_tag s"
    from search_of_ends_with_tag [OF this, of "[]"] show ?thesis by (simp add: at_end_def)
  next
    assume "\<exists>m. s = m @ [CHR 0x0A] \<and> ends_with_tag m"
    then obtain m where "s = m @ [CHR 0x0A]" "ends_with_tag m" by (elim exE conjE)
    with search_of_ends_with_tag [of m "[CHR 0x0A]"] show ?thesis by (simp add: at_end_def)
  qed
qed

lemma ends_with_tag_last:
  assumes "ends_with_tag s"
  shows "tag_char (last s)"
proof -
  from assms obtain pre c t where q: "s = pre @ CHR '':'' # c # t" "tag_first c"
    "list_all tag_char t" "length t \<le> 127" unfolding ends_with_tag_def by (elim exE conjE)
  show ?thesis
  proof (cases t rule: rev_cases)
    case Nil
    with q show ?thesis by (simp add: tag_first_char)
  next
    case (snoc t' x)
    with q show ?thesis by simp
  qed
qed

lemma latest_tagged: "ends_with_tag (name @ '':latest'')"
proof -
  have "name @ '':latest'' = name @ CHR '':'' # CHR ''l'' # ''atest'' \<and> tag_first CHR ''l''
      \<and> list_all tag_char ''atest'' \<and> length ''atest'' \<le> 127"
    by (simp add: tag_first_def tag_char_def is_ascii_alnum_def in_range_def)
  then show ?thesis unfolding ends_with_tag_def by (intro exI)
qed

lemma image_name_for_save_idem:
  "image_name_for_save (image_name_for_save name) = image_name_for_save name"
  using latest_tagged [of name]
  by (simp add: image_name_for_save_def TAG_PATTERN_search_carries carries_tag_def)

lemma pull_trace:
  "fst (docker_pull_image docker n timeout tr) = tr @ [pull_command n]"
  by (simp add: docker_pull_image_def Let_def split: outcome.split)



lemma save_success:
  assumes "success_outcome (docker (length tr) (save_command (image_name_for_save name) dest) timeout)"
  shows "docker_save_to_tmp (Suc d) docker name dest timeout tr
         = (tr @ [save_command (image_name_for_save name) dest], Inr ())"
  using assms by (simp add: Let_def success_outcome_def split: outcome.splits)

lemma save_not_found:
  assumes "not_found_outcome (docker (length tr) (save_command (image_name_for_save name) dest) timeout)"
  shows "docker_save_to_tmp (Suc d) docker name dest timeout tr
         = (case docker_pull_image docker (image_name_for_save name) timeout
                   (tr @ [save_command (image_name_for_save name) dest]) of
              (tr', Inl e) \<Rightarrow> (tr', Inl e)
            | (tr', Inr u) \<Rightarrow> docker_save_to_tmp d docker (image_name_for_save name) dest timeout tr')"
  using assms by (simp add: Let_def not_found_outcome_def split: outcome.splits)

lemma save_other_failure:
  assumes "docker (length tr) (save_command (image_name_for_save name) dest) timeout = Exited rc err"
    and "rc \<noteq> 0" and "\<not> image_not_found err"
  shows "docker_save_to_tmp (Suc d) docker name dest timeout tr
         = (tr @ [save_command (image_name_for_save name) dest],
            Inl (UnexpectedError (''Unable to save docker archive:'' @ [CHR 0x0A]
                                       @ ''Error: '' @ err)))"
  using assms by (simp add: Let_def)

lemma save_timeout:
  assumes "docker (length tr) (save_command (image_name_for_save name) dest) timeout = TimedOut"
  shows "docker_save_to_tmp (Suc d) docker name dest timeout tr
         = (tr @ [save_command (image_name_for_save name) dest],
            Inl (UnexpectedError (timed_out_message (save_command (image_name_for_save name) dest))))"
  using assms by (simp add: Let_def)

declare docker_save_to_tmp.simps(2) [simp del]


lemma save_trace_prefix:
  "prefix tr (fst (docker_save_to_tmp depth docker name dest timeout tr))"
proof (induction depth arbitrary: name tr)
  case 0
  then show ?case by simp
next
  case (Suc d)
  let ?n = "image_name_for_save name"
  let ?s = "save_command ?n dest"
  show ?case
  proof (cases "docker (length tr) ?s timeout")
    case TimedOut
    then show ?thesis by (simp add: save_timeout)
  next
    case (Exited rc err)
    show ?thesis
    proof (cases "rc = 0")
      case True
      with Exited have "success_outcome (docker (length tr) ?s timeout)"
        by (simp add: success_outcome_def)
      then show ?thesis by (simp add: save_success)
    next
      case False
      show ?thesis
      proof (cases "image_not_found err")
        case nf: False
        from save_other_failure [of docker tr name dest timeout rc err d, OF Exited False nf]
        show ?thesis by simp
      next
        case True
        with Exited False have nf: "not_found_outcome (docker (length tr) ?s timeout)"
          by (simp add: not_found_outcome_def)
        obtain tr' r where p: "docker_pull_image docker ?n timeout (tr @ [?s]) = (tr', r)"
          by (cases "docker_pull_image docker ?n timeout (tr @ [?s])")
        with pull_trace [of docker ?n timeout "tr @ [?s]"]
        have tr': "tr' = tr @ [?s, pull_command ?n]" by simp
        show ?thesis
        proof (cases r)
          case (Inl e)
          with p tr' nf show ?thesis by (simp add: save_not_found)
        next
          case (Inr u)
          from Suc.IH [of tr' ?n] have "prefix tr (fst (docker_save_to_tmp d docker ?n dest timeout tr'))"
            unfolding tr' by (rule append_prefixD)
          with p Inr nf show ?thesis by (simp add: save_not_found)
        qed
      qed
    qed
  qed
qed

lemma save_first_command:
  "prefix (tr @ [save_command (image_name_for_save name) dest])
     (fst (docker_save_to_tmp (Suc d) docker name dest timeout tr))"
proof -
  let ?n = "image_name_for_save name"
  let ?s = "save_command ?n dest"
  show ?thesis
  proof (cases "docker (length tr) ?s timeout")
    case TimedOut
    then show ?thesis by (simp add: save_timeout)
  next
    case (Exited rc err)
    show ?thesis
    proof (cases "rc = 0")
      case True
      with Exited have "success_outcome (docker (length tr) ?s timeout)"
        by (simp add: success_outcome_def)
      then show ?thesis by (simp add: save_success)
    next
      case False
      show ?thesis
      proof (cases "image_not_found err")
        case nf: False
        from save_other_failure [of docker tr name dest timeout rc err d, OF Exited False nf]
        show ?thesis by simp
      next
        case True
        with Exited False have nf: "not_found_outcome (docker (length tr) ?s timeout)"
          by (simp add: not_found_outcome_def)
        obtain tr' r where p: "docker_pull_image docker ?n timeout (tr @ [?s]) = (tr', r)"
          by (cases "docker_pull_image docker ?n timeout (tr @ [?s])")
        with pull_trace [of docker ?n timeout "tr @ [?s]"]
        have tr': "tr' = (tr @ [?s]) @ [pull_command ?n]" by simp
        show ?thesis
        proof (cases r)
          case (Inl e)
          with p tr' nf show ?thesis by (simp add: save_not_found)
        next
          case (Inr u)
          have "prefix tr' (fst (docker_save_to_tmp d docker ?n dest timeout tr'))"
            by (rule save_trace_prefix)
          then have "prefix (tr @ [?s]) (fst (docker_save_to_tmp d docker ?n dest timeout tr'))"
            unfolding tr' by (rule append_prefixD)
          with p Inr nf show ?thesis by (simp add: save_not_found)
        qed
      qed
    qed
  qed
qed

lemma save_trace_commands:
  "set (fst (docker_save_to_tmp depth docker name dest timeout tr))
     \<subseteq> set tr \<union> {save_command (image_name_for_save name) dest,
                    pull_command (image_name_for_save name)}"
proof (induction depth arbitrary: name tr)
  case 0
  then show ?case by auto
next
  case (Suc d)
  let ?n = "image_name_for_save name"
  let ?s = "save_command ?n dest"
  show ?case
  proof (cases "docker (length tr) ?s timeout")
    case TimedOut
    then show ?thesis by (auto simp: save_timeout)
  next
    case (Exited rc err)
    show ?thesis
    proof (cases "rc = 0")
      case True
      with Exited have "success_outcome (docker (length tr) ?s timeout)"
        by (simp add: success_outcome_def)
      then show ?thesis by (auto simp: save_success)
    next
      case False
      show ?thesis
      proof (cases "image_not_found err")
        case nf: False
        from save_other_failure [of docker tr name dest timeout rc err d, OF Exited False nf]
        show ?thesis by auto
      next
        case True
        with Exited False have nf: "not_found_outcome (docker (length tr) ?s timeout)"
          by (simp add: not_found_outcome_def)
        obtain tr' r where p: "docker_pull_image docker ?n timeout (tr @ [?s]) = (tr', r)"
          by (cases "docker_pull_image docker ?n timeout (tr @ [?s])")
        with pull_trace [of docker ?n timeout "tr @ [?s]"]
        have tr': "tr' = tr @ [?s, pull_command ?n]" by simp
        show ?thesis
        proof (cases r)
          case (Inl e)
          with p tr' nf show ?thesis by (auto simp: save_not_found)
        next
          case (Inr u)
          from Suc.IH [of ?n tr']
          have "set (fst (docker_save_to_tmp d docker ?n dest timeout tr'))
              \<subseteq> set tr' \<union> {?s, pull_command ?n}"
            by (simp only: image_name_for_save_idem)
          also have "\<dots> = set tr \<union> {?s, pull_command ?n}"
            unfolding tr' by auto
          finally show ?thesis using p Inr nf by (simp add: save_not_found)
        qed
      qed
    qed
  qed
qed






text \<open>A name that does not end in a newline is kept when it ends in a tag, and gets
  \<open>:latest\<close> appended otherwise.\<close>

lemma image_name_for_save_tagged:
  assumes "name = [] \<or> last name \<noteq> CHR 0x0A"
  shows "image_name_for_save name = (if ends_with_tag name then name else name @ '':latest'')"
proof -
  have "\<not> (\<exists>m. name = m @ [CHR 0x0A] \<and> ends_with_tag m)"
  proof
    assume "\<exists>m. name = m @ [CHR 0x0A] \<and> ends_with_tag m"
    then obtain m where "name = m @ [CHR 0x0A]" by (elim exE conjE)
    with assms show False by simp
  qed
  then have "carries_tag name \<longleftrightarrow> ends_with_tag name"
    unfolding carries_tag_def by (simp only: simp_thms)
  then show ?thesis by (simp add: image_name_for_save_def TAG_PATTERN_search_carries)
qed

text \<open>
  Claim C10. The name \<open>img:v1\<close> followed by a newline does not end in a tag, and
  \<open>docker_save_to_tmp\<close> still uses it as it is: \<open>$\<close> in \<open>TAG_PATTERN\<close> also matches
  just before a newline that ends the name, so \<open>:latest\<close> is not appended and
  \<open>docker save\<close> is run with the name unchanged.
\<close>

theorem image_name_trailing_newline_kept:
  "\<not> ends_with_tag (''img:v1'' @ [CHR 0x0A])
   \<and> image_name_for_save (''img:v1'' @ [CHR 0x0A]) = ''img:v1'' @ [CHR 0x0A]
   \<and> image_name_for_save (''img:v1'' @ [CHR 0x0A]) \<noteq> ''img:v1'' @ [CHR 0x0A] @ '':latest''
   \<and> docker_save_to_tmp (Suc 0) (const_docker (Exited 0 [])) (''img:v1'' @ [CHR 0x0A])
        ''/tmp/image.tar'' 60 []
     = ([[''docker'', ''save'', ''img:v1'' @ [CHR 0x0A], ''-o'', ''/tmp/image.tar'']], Inr ())"
proof -
  have "\<not> tag_char (last (''img:v1'' @ [CHR 0x0A]))"
    using newline_not_tag by simp
  then have a: "\<not> ends_with_tag (''img:v1'' @ [CHR 0x0A])"
    using ends_with_tag_last by blast
  have b: "image_name_for_save (''img:v1'' @ [CHR 0x0A]) = ''img:v1'' @ [CHR 0x0A]"
    by (simp add: image_name_for_save_def tag_first_def tag_char_def is_ascii_alnum_def
        in_range_def at_end_def)
  from b have c: "image_name_for_save (''img:v1'' @ [CHR 0x0A])
      \<noteq> ''img:v1'' @ [CHR 0x0A] @ '':latest''"
    by simp
  have d: "docker_save_to_tmp (Suc 0) (const_docker (Exited 0 [])) (''img:v1'' @ [CHR 0x0A])
        ''/tmp/image.tar'' 60 []
     = ([[''docker'', ''save'', ''img:v1'' @ [CHR 0x0A], ''-o'', ''/tmp/image.tar'']], Inr ())"
    by (simp add: docker_save_to_tmp.simps(2) const_docker_def image_name_for_save_def Let_def
        save_command_def tag_first_def tag_char_def is_ascii_alnum_def in_range_def at_end_def)
  from a b c d show ?thesis by (intro conjI)
qed

section \<open>Verification: the size probe of a scannable unit\<close>

lemma read_length: "length (extractfile_read ti) \<le> ti_size ti"
  by (simp add: extractfile_read_def)

lemma decoded_length:
  assumes "\<forall>b. length (decode b) \<le> length b"
  shows "length (decode (extractfile_read ti)) \<le> ti_size ti"
proof -
  from assms have "length (decode (extractfile_read ti)) \<le> length (extractfile_read ti)"
    by (rule spec)
  with read_length [of ti] show ?thesis by linarith
qed

lemma is_longer_than_cached:
  assumes "dcs_content s = Some c" and "c \<noteq> []"
  shows "is_longer_than decode s n = (int (length c) > n, s)"
  using assms by (simp add: is_longer_than_def)

lemma is_longer_than_shortcut:
  assumes "dcs_content s = None \<or> dcs_content s = Some []"
    and "int (ti_size (dcs_tar_info s)) < n"
  shows "is_longer_than decode s n = (False, s)"
  using assms by (auto simp: is_longer_than_def)

lemma is_longer_than_probe:
  assumes "dcs_content s = None \<or> dcs_content s = Some []"
    and "\<not> int (ti_size (dcs_tar_info s)) < n"
  shows "is_longer_than decode s n =
     (int (length (decode (extractfile_read (dcs_tar_info s)))) > n,
      s\<lparr>dcs_content := (if int (length (decode (extractfile_read (dcs_tar_info s)))) > n
                         then None else Some (decode (extractfile_read (dcs_tar_info s))))\<rparr>)"
  using assms by (auto simp: is_longer_than_def Scannable_is_file_longer_than_def Let_def)

lemma content_value:
  assumes "content_consistent decode s"
  shows "fst (content decode s) = decode (extractfile_read (dcs_tar_info s))"
  using assms by (auto simp: content_consistent_def content_def Let_def)

lemma content_keeps_consistent:
  assumes "content_consistent decode s"
  shows "content_consistent decode (snd (content decode s))"
  using assms by (auto simp: content_consistent_def content_def Let_def)

lemma probe_keeps_consistent:
  assumes "content_consistent decode s"
  shows "content_consistent decode (snd (is_longer_than decode s n))
       \<and> dcs_tar_info (snd (is_longer_than decode s n)) = dcs_tar_info s"
proof (cases "dcs_content s = None \<or> dcs_content s = Some []")
  case True
  show ?thesis
  proof (cases "int (ti_size (dcs_tar_info s)) < n")
    case True
    with \<open>dcs_content s = None \<or> dcs_content s = Some []\<close> assms show ?thesis
      by (simp add: is_longer_than_shortcut)
  next
    case False
    with True show ?thesis
      by (simp add: is_longer_than_probe content_consistent_def)
  qed
next
  case False
  then obtain c where "dcs_content s = Some c" "c \<noteq> []" by (cases "dcs_content s") auto
  with assms show ?thesis by (simp add: is_longer_than_cached)
qed

lemma probe_result:
  assumes "\<forall>b. length (decode b) \<le> length b" and "content_consistent decode s"
  shows "fst (is_longer_than decode s n)
       = (int (length (decode (extractfile_read (dcs_tar_info s)))) > n)"
proof (cases "dcs_content s = None \<or> dcs_content s = Some []")
  case True
  show ?thesis
  proof (cases "int (ti_size (dcs_tar_info s)) < n")
    case short: True
    from decoded_length [OF assms(1), of "dcs_tar_info s"] short
    have "\<not> int (length (decode (extractfile_read (dcs_tar_info s)))) > n" by simp
    with True short show ?thesis by (simp add: is_longer_than_shortcut)
  next
    case False
    with True show ?thesis by (simp add: is_longer_than_probe)
  qed
next
  case False
  then obtain c where c: "dcs_content s = Some c" "c \<noteq> []" by (cases "dcs_content s") auto
  with assms(2) have "c = decode (extractfile_read (dcs_tar_info s))"
    by (simp add: content_consistent_def)
  with c show ?thesis by (simp add: is_longer_than_cached)
qed


text \<open>
  Claim C4. For a unit whose cached text, if any, is the decoded text of its entry, and a
  decoder that never yields more characters than it was given bytes, the probe
  \<open>is_longer_than\<close> returns for every size what comparing the length of \<open>content\<close> with
  the size returns; at the boundary, where the size is the length of the content, it
  returns false; whenever the recorded byte size is below the size the comparison is
  false as well, so the shortcut never disagrees. The probe does not change what
  \<open>content\<close> returns afterwards, and a new unit satisfies the condition on the cached
  text, which both operations keep.
\<close>

theorem probe_agrees_with_content:
  assumes "\<forall>b. length (decode b) \<le> length b" and "content_consistent decode s"
  shows "fst (is_longer_than decode s n) = (int (length (fst (content decode s))) > n)
       \<and> (n = int (length (fst (content decode s))) \<longrightarrow> \<not> fst (is_longer_than decode s n))
       \<and> (int (ti_size (dcs_tar_info s)) < n \<longrightarrow> \<not> int (length (fst (content decode s))) > n)
       \<and> fst (content decode (snd (is_longer_than decode s n))) = fst (content decode s)
       \<and> content_consistent decode (snd (is_longer_than decode s n))
       \<and> content_consistent decode (snd (content decode s))
       \<and> content_consistent decode (new_DockerContentScannable lid ti)"
proof -
  let ?text = "decode (extractfile_read (dcs_tar_info s))"
  have c: "fst (content decode s) = ?text"
    using assms(2) by (rule content_value)
  have p: "fst (is_longer_than decode s n) = (int (length ?text) > n)"
    using assms by (rule probe_result)
  have k: "content_consistent decode (snd (is_longer_than decode s n))"
    and t: "dcs_tar_info (snd (is_longer_than decode s n)) = dcs_tar_info s"
    using probe_keeps_consistent [OF assms(2), of n] by simp_all
  have a: "fst (content decode (snd (is_longer_than decode s n))) = ?text"
    using content_value [OF k] t by simp
  have short: "int (ti_size (dcs_tar_info s)) < n \<longrightarrow> \<not> int (length ?text) > n"
    using decoded_length [OF assms(1), of "dcs_tar_info s"] by simp
  have new: "content_consistent decode (new_DockerContentScannable lid ti)"
    by (simp add: content_consistent_def new_DockerContentScannable_def)
  have b: "n = int (length ?text) \<longrightarrow> \<not> fst (is_longer_than decode s n)"
    unfolding p by simp
  from p c a b short k content_keeps_consistent [OF assms(2)] new show ?thesis
    by (simp only: simp_thms)
qed

theorem probe_agrees_with_content_witness:
  "(\<forall>b. length (latin_decode b) \<le> length b)
   \<and> content_consistent latin_decode
       (new_DockerContentScannable (JStr ''sha256:1'')
          \<lparr>ti_name = ''app/key.txt'', ti_size = 6, ti_isfile = True, ti_data = ''secret''\<rparr>)
   \<and> fst (is_longer_than latin_decode
       (new_DockerContentScannable (JStr ''sha256:1'')
          \<lparr>ti_name = ''app/key.txt'', ti_size = 6, ti_isfile = True, ti_data = ''secret''\<rparr>) 6)
     = False
   \<and> fst (is_longer_than latin_decode
       (new_DockerContentScannable (JStr ''sha256:1'')
          \<lparr>ti_name = ''app/key.txt'', ti_size = 6, ti_isfile = True, ti_data = ''secret''\<rparr>) 5)
     = True
   \<and> fst (content latin_decode
       (new_DockerContentScannable (JStr ''sha256:1'')
          \<lparr>ti_name = ''app/key.txt'', ti_size = 6, ti_isfile = True, ti_data = ''secret''\<rparr>))
     = ''secret''"
proof -
  let ?s = "new_DockerContentScannable (JStr ''sha256:1'')
          \<lparr>ti_name = ''app/key.txt'', ti_size = 6, ti_isfile = True, ti_data = ''secret''\<rparr>"
  have h1: "\<forall>b. length (latin_decode b) \<le> length b"
    by (simp add: latin_decode_def)
  have h2: "content_consistent latin_decode ?s"
    by (simp add: content_consistent_def new_DockerContentScannable_def)
  have c: "fst (content latin_decode ?s) = ''secret''"
    by (simp add: content_def new_DockerContentScannable_def latin_decode_def
        extractfile_read_def Let_def)
  from probe_agrees_with_content [OF h1 h2, of 6] c
  have a: "fst (is_longer_than latin_decode ?s 6) = False" by simp
  from probe_agrees_with_content [OF h1 h2, of 5] c
  have b: "fst (is_longer_than latin_decode ?s 5) = True" by simp
  from h1 h2 a b c show ?thesis by (intro conjI)
qed

section \<open>Verification: the layer catalogue\<close>

lemma should_scan_error: "should_scan x = Inl e \<Longrightarrow> e = TypeError"
  by (simp add: should_scan_def split: json.splits if_splits)

lemma filter_should_scan_error: "filter_should_scan xs = Inl e \<Longrightarrow> e = TypeError"
proof (induction xs)
  case Nil
  then show ?case by simp
next
  case (Cons x xs)
  show ?case
  proof (cases "should_scan x")
    case (Inl e')
    with Cons.prems have "e' = e" by simp
    with Inl show ?thesis by (simp add: should_scan_error)
  next
    case (Inr keep)
    with Cons.prems have "filter_should_scan xs = Inl e"
      by (simp split: sum.splits)
    then show ?thesis by (rule Cons.IH)
  qed
qed

lemma dict_get_error: "dict_get x k = Inl e \<Longrightarrow> e = AttributeError"
  by (cases x) simp_all

lemma subscript_error: "subscript x k = Inl e \<Longrightarrow> e = KeyError \<or> e = TypeError"
  by (cases x) (simp_all split: option.splits)

lemma iterate_error: "iterate x = Inl e \<Longrightarrow> e = TypeError"
  by (cases x) simp_all

lemma non_empty_entries_error: "non_empty_entries xs = Inl e \<Longrightarrow> e = AttributeError"
proof (induction xs)
  case Nil
  then show ?case by simp
next
  case (Cons x xs)
  show ?case
  proof (cases "dict_get x ''empty_layer''")
    case (Inl e')
    with Cons.prems have "e' = e" by simp
    with Inl show ?thesis by (simp add: dict_get_error)
  next
    case (Inr marker)
    with Cons.prems have "non_empty_entries xs = Inl e"
      by (simp split: sum.splits)
    then show ?thesis by (rule Cons.IH)
  qed
qed

lemma load_layer_infos_error:
  assumes "load_layer_infos mf img = Inl e"
  shows "e = KeyError \<or> e = TypeError \<or> e = AttributeError"
proof -
  note errs = subscript_error iterate_error non_empty_entries_error filter_should_scan_error
  show ?thesis
  proof (cases "subscript mf ''Layers''")
    case (Inl a)
    with assms errs show ?thesis by (auto simp: load_layer_infos_def)
  next
    case l: (Inr layer_filenames)
    show ?thesis
    proof (cases "subscript img ''history''")
      case (Inl a)
      with assms l errs show ?thesis by (auto simp: load_layer_infos_def)
    next
      case h: (Inr history)
      show ?thesis
      proof (cases "iterate history")
        case (Inl a)
        with assms l h errs show ?thesis by (auto simp: load_layer_infos_def)
      next
        case it: (Inr entries)
        show ?thesis
        proof (cases "non_empty_entries entries")
          case (Inl a)
          with assms l h it errs show ?thesis by (auto simp: load_layer_infos_def)
        next
          case ne: (Inr es)
          show ?thesis
          proof (cases "subscript img ''rootfs''")
            case (Inl a)
            with assms l h it ne errs show ?thesis by (auto simp: load_layer_infos_def)
          next
            case r: (Inr rootfs)
            show ?thesis
            proof (cases "subscript rootfs ''diff_ids''")
              case (Inl a)
              with assms l h it ne r errs show ?thesis by (auto simp: load_layer_infos_def)
            next
              case d: (Inr diff_ids)
              show ?thesis
              proof (cases "iterate layer_filenames")
                case (Inl a)
                with assms l h it ne r d errs show ?thesis
                  by (auto simp: load_layer_infos_def)
              next
                case fs: (Inr fs)
                show ?thesis
                proof (cases "iterate diff_ids")
                  case (Inl a)
                  with assms l h it ne r d fs errs show ?thesis
                    by (auto simp: load_layer_infos_def)
                next
                  case (Inr ds)
                  with assms l h it ne r d fs
                  have "filter_should_scan (zip_layer_infos fs es ds) = Inl e"
                    by (simp add: load_layer_infos_def)
                  then show ?thesis by (simp add: filter_should_scan_error)
                qed
              qed
            qed
          qed
        qed
      qed
    qed
  qed
qed

lemma length_zip_layer_infos:
  "length (zip_layer_infos fs es ds) = min (length fs) (min (length es) (length ds))"
  by (simp add: zip_layer_infos_def)

lemma nth_zip_layer_infos:
  assumes "i < length fs" and "i < length es" and "i < length ds"
  shows "zip_layer_infos fs es ds ! i
         = \<lparr>filename = fs ! i, command = created_by (es ! i), diff_id = ds ! i\<rparr>"
  using assms by (simp add: zip_layer_infos_def)

lemma load_layer_infos_lists:
  assumes "subscript mf ''Layers'' = Inr (JArr fs)"
    and "subscript img ''history'' = Inr (JArr hs)"
    and "non_empty_entries hs = Inr es"
    and "subscript img ''rootfs'' = Inr rootfs"
    and "subscript rootfs ''diff_ids'' = Inr (JArr ds)"
  shows "load_layer_infos mf img = filter_should_scan (zip_layer_infos fs es ds)"
  using assms by (simp add: load_layer_infos_def)

lemma non_empty_entries_filter:
  "non_empty_entries hs = Inr es \<Longrightarrow> es = filter (\<lambda>x. \<not> marked_empty x) hs"
proof (induction hs arbitrary: es)
  case Nil
  then show ?case by simp
next
  case (Cons x xs)
  from Cons.prems obtain marker ys where a: "dict_get x ''empty_layer'' = Inr marker"
    and b: "non_empty_entries xs = Inr ys"
    and c: "es = (if (case marker of None \<Rightarrow> False | Some v \<Rightarrow> truthy v) then ys else x # ys)"
    by (auto split: sum.splits)
  from Cons.IH [OF b] have ys: "ys = filter (\<lambda>x. \<not> marked_empty x) xs" .
  from a have "marked_empty x = (case marker of None \<Rightarrow> False | Some v \<Rightarrow> truthy v)"
    by (simp add: marked_empty_def split: option.split)
  with c ys show ?case by simp
qed

lemma filter_should_scan_filter:
  "filter_should_scan xs = Inr ys \<Longrightarrow> ys = filter scan_worthy xs"
proof (induction xs arbitrary: ys)
  case Nil
  then show ?case by simp
next
  case (Cons x xs)
  from Cons.prems obtain keep zs where a: "should_scan x = Inr keep"
    and b: "filter_should_scan xs = Inr zs"
    and c: "ys = (if keep then x # zs else zs)"
    by (auto split: sum.splits)
  from Cons.IH [OF b] have zs: "zs = filter scan_worthy xs" .
  from a have "scan_worthy x = keep" by (simp add: scan_worthy_def)
  with c zs show ?case by simp
qed

lemma filter_should_scan_total:
  assumes "\<forall>x\<in>set xs. \<exists>s. command x = JStr s"
  shows "filter_should_scan xs = Inr (filter scan_worthy xs)"
  using assms
proof (induction xs)
  case Nil
  then show ?case by simp
next
  case (Cons x xs)
  then obtain s where s: "command x = JStr s" by auto
  then have k: "should_scan x = Inr (s = [] \<or> LAYER_TO_SCAN_PATTERN_search s)"
    by (simp add: should_scan_def)
  then have "scan_worthy x = (s = [] \<or> LAYER_TO_SCAN_PATTERN_search s)"
    by (simp add: scan_worthy_def)
  with Cons k show ?case by simp
qed

lemma map_diff_id_zip:
  assumes "length fs = length es" and "length ds = length es"
  shows "map diff_id (zip_layer_infos fs es ds) = ds"
proof -
  have "map diff_id (zip_layer_infos fs es ds) = map (\<lambda>(f, h, d). d) (zip fs (zip es ds))"
    by (simp add: zip_layer_infos_def split_def)
  also have "\<dots> = map snd (map snd (zip fs (zip es ds)))"
    by (simp add: split_def)
  also have "\<dots> = ds" using assms by simp
  finally show ?thesis .
qed

lemma commands_of_zip:
  assumes "\<forall>e\<in>set es. \<exists>s. created_by e = JStr s"
  shows "\<forall>x\<in>set (zip_layer_infos fs es ds). \<exists>s. command x = JStr s"
proof
  fix x assume "x \<in> set (zip_layer_infos fs es ds)"
  then obtain f h d where m: "(f, h, d) \<in> set (zip fs (zip es ds))"
    and x: "x = \<lparr>filename = f, command = created_by h, diff_id = d\<rparr>"
    by (auto simp: zip_layer_infos_def)
  from m have "(h, d) \<in> set (zip es ds)" by (rule set_zip_rightD)
  then have "h \<in> set es" by (rule set_zip_leftD)
  with assms x show "\<exists>s. command x = JStr s" by simp
qed

lemmas pattern_eval = LAYER_TO_SCAN_PATTERN_search_def layer_pattern_here_def word_boundary_def
  ascii_lower_def in_range_def is_word_char_def is_ascii_alnum_def

text \<open>
  Claim C1, amended. When the manifest's layer list, the history and the list of
  \<open>diff_ids\<close> are lists, \<open>_load_layer_infos\<close> performs no length check: it builds the
  descriptors from the positions the three sequences share, as many as the shortest of
  them has, and filters them by \<open>should_scan\<close>. Whatever its input, it never raises
  \<open>InvalidDockerArchiveException\<close>.
\<close>

theorem load_layer_infos_truncates:
  assumes "subscript mf ''Layers'' = Inr (JArr fs)"
    and "subscript img ''history'' = Inr (JArr hs)"
    and "non_empty_entries hs = Inr es"
    and "subscript img ''rootfs'' = Inr rootfs"
    and "subscript rootfs ''diff_ids'' = Inr (JArr ds)"
  shows "load_layer_infos mf img = filter_should_scan (zip_layer_infos fs es ds)
       \<and> length (zip_layer_infos fs es ds) = min (length fs) (min (length es) (length ds))
       \<and> (\<forall>i. i < length fs \<and> i < length es \<and> i < length ds
            \<longrightarrow> zip_layer_infos fs es ds ! i
                = \<lparr>filename = fs ! i, command = created_by (es ! i), diff_id = ds ! i\<rparr>)
       \<and> (\<forall>m. load_layer_infos mf img \<noteq> Inl (InvalidDockerArchiveException m))"
proof (intro conjI allI impI)
  show "load_layer_infos mf img = filter_should_scan (zip_layer_infos fs es ds)"
    using assms by (rule load_layer_infos_lists)
  show "length (zip_layer_infos fs es ds) = min (length fs) (min (length es) (length ds))"
    by (rule length_zip_layer_infos)
  show "zip_layer_infos fs es ds ! i
                = \<lparr>filename = fs ! i, command = created_by (es ! i), diff_id = ds ! i\<rparr>"
    if "i < length fs \<and> i < length es \<and> i < length ds" for i
    using that by (simp add: nth_zip_layer_infos)
  show "load_layer_infos mf img \<noteq> Inl (InvalidDockerArchiveException m)" for m
    using load_layer_infos_error [of mf img "InvalidDockerArchiveException m"] by auto
qed

theorem load_layer_infos_truncates_witness:
  "load_layer_infos mismatched_manifest mismatched_image
     = Inr [\<lparr>filename = JStr ''a/layer.tar'', command = JStr ''COPY . /app'',
             diff_id = JStr ''sha256:1''\<rparr>]
   \<and> length (zip_layer_infos [JStr ''a/layer.tar'']
        [JObj [(''created_by'', JStr ''COPY . /app'')], JObj [(''created_by'', JStr ''ADD x /'')]]
        [JStr ''sha256:1'', JStr ''sha256:2'', JStr ''sha256:3'']) = 1"
proof -
  let ?fs = "[JStr ''a/layer.tar'']"
  let ?es = "[JObj [(''created_by'', JStr ''COPY . /app'')], JObj [(''created_by'', JStr ''ADD x /'')]]"
  let ?ds = "[JStr ''sha256:1'', JStr ''sha256:2'', JStr ''sha256:3'']"
  have a: "subscript mismatched_manifest ''Layers'' = Inr (JArr ?fs)"
    by (simp add: mismatched_manifest_def)
  have b: "subscript mismatched_image ''history'' = Inr (JArr ?es)"
    by (simp add: mismatched_image_def)
  have c: "non_empty_entries ?es = Inr ?es" by simp
  have d: "subscript mismatched_image ''rootfs'' = Inr (JObj [(''diff_ids'', JArr ?ds)])"
    by (simp add: mismatched_image_def)
  have e: "subscript (JObj [(''diff_ids'', JArr ?ds)]) ''diff_ids'' = Inr (JArr ?ds)" by simp
  note t = load_layer_infos_truncates [OF a b c d e]
  have f: "filter_should_scan (zip_layer_infos ?fs ?es ?ds)
      = Inr [\<lparr>filename = JStr ''a/layer.tar'', command = JStr ''COPY . /app'',
             diff_id = JStr ''sha256:1''\<rparr>]"
    by (simp add: zip_layer_infos_def created_by_def should_scan_def pattern_eval)
  from t f show ?thesis by simp
qed

theorem misaligned_archive_counterexample:
  "new_DockerImage mismatched_archive
     = Inr \<lparr>tar_file = mismatched_archive, manifest = mismatched_manifest,
            image = mismatched_image,
            config_scannable = StringScannable ''Dockerfile or build-args'' mismatched_image,
            layer_infos = [\<lparr>filename = JStr ''a/layer.tar'', command = JStr ''COPY . /app'',
                              diff_id = JStr ''sha256:1''\<rparr>]\<rparr>"
proof -
  have m: "load_manifest mismatched_archive = Inr mismatched_manifest"
    by (simp add: load_manifest_def extractfile_def getmember_def rstrip_slash_def
        mismatched_archive_def json_load_def)
  have i: "load_image mismatched_archive mismatched_manifest = Inr mismatched_image"
    by (simp add: load_image_def mismatched_manifest_def getmember_def rstrip_slash_def
        mismatched_archive_def json_load_def)
  have l: "load_layer_infos mismatched_manifest mismatched_image
     = Inr [\<lparr>filename = JStr ''a/layer.tar'', command = JStr ''COPY . /app'',
             diff_id = JStr ''sha256:1''\<rparr>]"
    by (simp add: load_layer_infos_def mismatched_manifest_def mismatched_image_def
        zip_layer_infos_def created_by_def should_scan_def pattern_eval)
  from m i l show ?thesis by (simp add: new_DockerImage_def)
qed

text \<open>
  Claim C8, amended. For an archive whose three lists are lists of equal length and whose
  build commands are strings, the descriptors built before the classification are as many
  as the history entries not marked empty, and their identifiers are the \<open>diff_ids\<close> in
  order. The public list holds those of them that \<open>should_scan\<close> accepts, in the same
  order: its identifiers are a subsequence of the \<open>diff_ids\<close>, and it has at most as many
  descriptors as there are history entries not marked empty.
\<close>

theorem layer_infos_of_aligned_archive:
  assumes "subscript mf ''Layers'' = Inr (JArr fs)"
    and "subscript img ''history'' = Inr (JArr hs)"
    and "non_empty_entries hs = Inr es"
    and "subscript img ''rootfs'' = Inr rootfs"
    and "subscript rootfs ''diff_ids'' = Inr (JArr ds)"
    and "length fs = length es" and "length ds = length es"
    and "\<forall>e\<in>set es. \<exists>s. created_by e = JStr s"
  shows "load_layer_infos mf img = Inr (filter scan_worthy (zip_layer_infos fs es ds))
       \<and> es = filter (\<lambda>x. \<not> marked_empty x) hs
       \<and> length (zip_layer_infos fs es ds) = length es
       \<and> map diff_id (zip_layer_infos fs es ds) = ds
       \<and> subseq (map diff_id (filter scan_worthy (zip_layer_infos fs es ds))) ds
       \<and> length (filter scan_worthy (zip_layer_infos fs es ds)) \<le> length es"
proof (intro conjI)
  let ?all = "zip_layer_infos fs es ds"
  have "load_layer_infos mf img = filter_should_scan ?all"
    using assms(1-5) by (rule load_layer_infos_lists)
  also have "\<dots> = Inr (filter scan_worthy ?all)"
    using commands_of_zip [OF assms(8)] by (rule filter_should_scan_total)
  finally show "load_layer_infos mf img = Inr (filter scan_worthy ?all)" .
  show "es = filter (\<lambda>x. \<not> marked_empty x) hs"
    using assms(3) by (rule non_empty_entries_filter)
  show len: "length ?all = length es"
    using assms(6,7) by (simp add: length_zip_layer_infos)
  show ids: "map diff_id ?all = ds"
    using assms(6,7) by (rule map_diff_id_zip)
  have "subseq (map diff_id (filter scan_worthy ?all)) (map diff_id ?all)"
    by (intro subseq_map subseq_filter_left)
  with ids show "subseq (map diff_id (filter scan_worthy ?all)) ds" by simp
  have "length (filter scan_worthy ?all) \<le> length ?all" by (rule length_filter_le)
  with len show "length (filter scan_worthy ?all) \<le> length es" by simp
qed

theorem layer_infos_of_aligned_archive_witness:
  "load_layer_infos two_layer_manifest two_layer_image
     = Inr [\<lparr>filename = JStr ''b/layer.tar'', command = JStr ''COPY secrets.txt /'',
             diff_id = JStr ''sha256:2''\<rparr>]
   \<and> length (filter (\<lambda>x. \<not> marked_empty x) two_layer_history) = 2"
proof -
  let ?fs = "[JStr ''a/layer.tar'', JStr ''b/layer.tar'']"
  let ?es = "[JObj [(''created_by'', JStr ''ENV FOO=bar'')],
              JObj [(''created_by'', JStr ''COPY secrets.txt /'')]]"
  let ?ds = "[JStr ''sha256:1'', JStr ''sha256:2'']"
  have a: "subscript two_layer_manifest ''Layers'' = Inr (JArr ?fs)"
    by (simp add: two_layer_manifest_def)
  have b: "subscript two_layer_image ''history'' = Inr (JArr two_layer_history)"
    by (simp add: two_layer_image_def)
  have c: "non_empty_entries two_layer_history = Inr ?es"
    by (simp add: two_layer_history_def)
  have d: "subscript two_layer_image ''rootfs'' = Inr (JObj [(''diff_ids'', JArr ?ds)])"
    by (simp add: two_layer_image_def)
  have e: "subscript (JObj [(''diff_ids'', JArr ?ds)]) ''diff_ids'' = Inr (JArr ?ds)" by simp
  have f: "length ?fs = length ?es" and g: "length ?ds = length ?es" by simp_all
  have h: "\<forall>e\<in>set ?es. \<exists>s. created_by e = JStr s"
    by (simp add: created_by_def)
  note t = layer_infos_of_aligned_archive [OF a b c d e f g h]
  have k: "filter scan_worthy (zip_layer_infos ?fs ?es ?ds)
      = [\<lparr>filename = JStr ''b/layer.tar'', command = JStr ''COPY secrets.txt /'',
           diff_id = JStr ''sha256:2''\<rparr>]"
    by (simp add: zip_layer_infos_def created_by_def scan_worthy_def should_scan_def pattern_eval)
  from t have r: "load_layer_infos two_layer_manifest two_layer_image
      = Inr (filter scan_worthy (zip_layer_infos ?fs ?es ?ds))"
    by (rule conjunct1)
  from t have "?es = filter (\<lambda>x. \<not> marked_empty x) two_layer_history"
    by (elim conjE)
  then have "length (filter (\<lambda>x. \<not> marked_empty x) two_layer_history) = length ?es"
    by (rule arg_cong [where f = length, symmetric])
  then have n: "length (filter (\<lambda>x. \<not> marked_empty x) two_layer_history) = 2"
    by simp
  from r k n show ?thesis by (simp only: simp_thms)
qed

theorem run_layer_dropped_counterexample:
  "load_layer_infos run_manifest run_image = Inr []
   \<and> non_empty_entries [JObj [(''created_by'', JStr ''RUN apt-get update'')]]
       = Inr [JObj [(''created_by'', JStr ''RUN apt-get update'')]]"
  by (simp add: load_layer_infos_def run_manifest_def run_image_def
      zip_layer_infos_def created_by_def should_scan_def pattern_eval)

section \<open>Verification: one cache file for each engine version\<close>

lemma split_slash_plain: "CHR ''/'' \<notin> set s \<Longrightarrow> split_slash s = [s]"
  by (induction s) auto

lemma Path_plain:
  assumes "CHR ''/'' \<notin> set s" and "s \<noteq> []" and "s \<noteq> ''.''"
  shows "Path s = PurePath [] [s]" and "\<not> prefix ''/'' s"
proof -
  from assms obtain c cs where s: "s = c # cs" and c: "c \<noteq> CHR ''/''"
    by (cases s) auto
  then show np: "\<not> prefix ''/'' s" by simp
  from s c have "\<not> prefix ''//'' s" by simp
  with np assms show "Path s = PurePath [] [s]"
    by (simp add: Path_def split_slash_plain)
qed

lemma version_file_plain:
  assumes "CHR ''/'' \<notin> set v"
  shows "CHR ''/'' \<notin> set (v @ ''.json'')" and "v @ ''.json'' \<noteq> []" and "v @ ''.json'' \<noteq> ''.''"
proof -
  show "CHR ''/'' \<notin> set (v @ ''.json'')" using assms by simp
  show "v @ ''.json'' \<noteq> []" by simp
  have "length (v @ ''.json'') \<noteq> length ''.''" by simp
  then show "v @ ''.json'' \<noteq> ''.''" by (metis)
qed

lemma get_layer_id_cache_plain:
  assumes "CHR ''/'' \<notin> set v"
  shows "get_layer_id_cache d v
         = PurePath (path_root (truediv (Path d) ''docker''))
             (path_parts (truediv (Path d) ''docker'') @ [v @ ''.json''])"
  using Path_plain [OF version_file_plain [OF assms]]
  by (simp add: get_layer_id_cache_def truediv_def)

lemma get_layer_id_cache_inj:
  assumes "CHR ''/'' \<notin> set v1" and "CHR ''/'' \<notin> set v2" and "v1 \<noteq> v2"
  shows "get_layer_id_cache d v1 \<noteq> get_layer_id_cache d v2"
  using assms(3)
  by (simp add: get_layer_id_cache_plain [OF assms(1)] get_layer_id_cache_plain [OF assms(2)])

text \<open>
  Claim C7, amended. For any two distinct version strings without a slash, the caches
  opened under them are different files: recording an identifier under the first leaves
  the view under the second as it was, and an identifier recorded under the first in an
  empty store is absent from the view under the second.
\<close>

theorem version_caches_disjoint:
  assumes "v1 \<noteq> v2" and "CHR ''/'' \<notin> set v1" and "CHR ''/'' \<notin> set v2"
  shows "get_layer_id_cache d v1 \<noteq> get_layer_id_cache d v2
       \<and> IDCache_contains (IDCache_add st (get_layer_id_cache d v1) i) (get_layer_id_cache d v2) j
           = IDCache_contains st (get_layer_id_cache d v2) j
       \<and> \<not> IDCache_contains (IDCache_add empty_store (get_layer_id_cache d v1) i)
             (get_layer_id_cache d v2) i
       \<and> IDCache_contains (IDCache_add st (get_layer_id_cache d v1) i) (get_layer_id_cache d v1) i"
proof -
  have ne: "get_layer_id_cache d v1 \<noteq> get_layer_id_cache d v2"
    using assms(2,3,1) by (rule get_layer_id_cache_inj)
  then have ne': "get_layer_id_cache d v2 \<noteq> get_layer_id_cache d v1" by (rule not_sym)
  from ne ne' show ?thesis
    by (simp add: IDCache_contains_def IDCache_add_def empty_store_def)
qed

theorem version_caches_disjoint_witness:
  "''1.29.0'' \<noteq> ''1.30.0'' \<and> CHR ''/'' \<notin> set ''1.29.0'' \<and> CHR ''/'' \<notin> set ''1.30.0''
   \<and> get_layer_id_cache ''/home/u/.cache/ggshield'' ''1.29.0''
       \<noteq> get_layer_id_cache ''/home/u/.cache/ggshield'' ''1.30.0''
   \<and> \<not> IDCache_contains
         (IDCache_add empty_store (get_layer_id_cache ''/home/u/.cache/ggshield'' ''1.29.0'')
            (JStr ''sha256:1''))
         (get_layer_id_cache ''/home/u/.cache/ggshield'' ''1.30.0'') (JStr ''sha256:1'')"
proof -
  have a: "''1.29.0'' \<noteq> ''1.30.0''" by simp
  have b: "CHR ''/'' \<notin> set ''1.29.0''" by simp
  have c: "CHR ''/'' \<notin> set ''1.30.0''" by simp
  note t = version_caches_disjoint [OF a b c, of "''/home/u/.cache/ggshield''" empty_store
      "JStr ''sha256:1''" "JStr ''sha256:1''"]
  have d: "get_layer_id_cache ''/home/u/.cache/ggshield'' ''1.29.0''
       \<noteq> get_layer_id_cache ''/home/u/.cache/ggshield'' ''1.30.0''"
    by (rule t [THEN conjunct1])
  have e: "\<not> IDCache_contains
         (IDCache_add empty_store (get_layer_id_cache ''/home/u/.cache/ggshield'' ''1.29.0'')
            (JStr ''sha256:1''))
         (get_layer_id_cache ''/home/u/.cache/ggshield'' ''1.30.0'') (JStr ''sha256:1'')"
    by (rule t [THEN conjunct2, THEN conjunct2, THEN conjunct1])
  from a b c d e show ?thesis by (intro conjI)
qed

theorem version_path_collision_counterexample:
  "''1.0'' \<noteq> ''./1.0''
   \<and> get_layer_id_cache ''/home/u/.cache/ggshield'' ''1.0''
       = get_layer_id_cache ''/home/u/.cache/ggshield'' ''./1.0''
   \<and> IDCache_contains
         (IDCache_add empty_store (get_layer_id_cache ''/home/u/.cache/ggshield'' ''1.0'')
            (JStr ''sha256:1''))
         (get_layer_id_cache ''/home/u/.cache/ggshield'' ''./1.0'') (JStr ''sha256:1'')"
proof -
  have a: "''1.0'' \<noteq> ''./1.0''" by simp
  have b: "get_layer_id_cache ''/home/u/.cache/ggshield'' ''1.0''
       = get_layer_id_cache ''/home/u/.cache/ggshield'' ''./1.0''"
    by (simp add: get_layer_id_cache_def truediv_def Path_def)
  have c: "IDCache_contains
         (IDCache_add empty_store (get_layer_id_cache ''/home/u/.cache/ggshield'' ''1.0'')
            (JStr ''sha256:1''))
         (get_layer_id_cache ''/home/u/.cache/ggshield'' ''./1.0'') (JStr ''sha256:1'')"
    unfolding b by (simp add: IDCache_contains_def IDCache_add_def)
  from a b c show ?thesis by (intro conjI)
qed

section \<open>Verification: the scan of an archive\<close>




lemma added_ids_single [simp]:
  "added_ids [] = []"
  "added_ids [GetLayer f] = []"
  "added_ids [LayerSkipped i] = []"
  "added_ids [Submitted o' files r] = []"
  "added_ids [CacheAdded i] = [i]"
  by (simp_all add: added_ids_def)

lemma clean_submitted_single [simp]:
  "clean_submitted breaks [] = []"
  "clean_submitted breaks [GetLayer f] = []"
  "clean_submitted breaks [LayerSkipped i] = []"
  "clean_submitted breaks [CacheAdded i] = []"
  "clean_submitted breaks [Submitted None files r'] = []"
  "clean_submitted breaks [Submitted (Some i) files (Inl e)] = []"
  "clean_submitted breaks [Submitted (Some i) files (Inr r)] = (if breaks r then [] else [i])"
  by (simp_all add: clean_submitted_def)

lemma batches_nonempty_single [simp]:
  "batches_nonempty []"
  "batches_nonempty [GetLayer f]"
  "batches_nonempty [LayerSkipped i]"
  "batches_nonempty [CacheAdded i]"
  "batches_nonempty [Submitted None files r]"
  "batches_nonempty [Submitted (Some i) files r] \<longleftrightarrow> files \<noteq> []"
  by (simp_all add: batches_nonempty_def)








declare scan_layers.simps(2) [simp del]



lemma log_event_sel [simp]:
  "store (log_event e st) = store st"
  "events (log_event e st) = events st @ [e]"
  by (simp_all add: log_event_def)























lemmas archive_eval = load_manifest_def load_image_def extractfile_def getmember_def
  rstrip_slash_def json_load_def

lemma demo_load_manifest: "load_manifest demo_archive = Inr demo_manifest"
  by (simp add: archive_eval demo_archive_def)

lemma demo_load_image: "load_image demo_archive demo_manifest = Inr demo_image"
  by (simp add: archive_eval demo_archive_def demo_manifest_def)

lemma demo_load_layer_infos:
  "load_layer_infos demo_manifest demo_image
     = Inr [demo_layer_a, demo_layer_b, demo_layer_c, demo_layer_d]"
  by (simp add: load_layer_infos_def demo_manifest_def demo_image_def zip_layer_infos_def
      created_by_def should_scan_def pattern_eval demo_layer_a_def demo_layer_b_def
      demo_layer_c_def demo_layer_d_def)

lemma demo_new_DockerImage: "new_DockerImage demo_archive = Inr demo_docker_image"
  by (simp add: new_DockerImage_def demo_load_manifest demo_load_image demo_load_layer_infos
      demo_docker_image_def)

lemmas layer_eval = get_layer_def extractfile_def getmember_def rstrip_slash_def
  layer_scannables_def validate_filepath_def FILEPATH_BANLIST_match_def banned_usr_def
  banned_prefix_def no_binaries_def demo_docker_image_def demo_archive_def

lemma demo_get_layer:
  "get_layer no_binaries demo_docker_image demo_layer_a
     = Inr [DockerContent (new_DockerContentScannable (JStr ''sha256:a'') secrets_entry)]"
  "get_layer no_binaries demo_docker_image demo_layer_b
     = Inr [DockerContent (new_DockerContentScannable (JStr ''sha256:b'') main_entry)]"
  "get_layer no_binaries demo_docker_image demo_layer_c = Inr []"
  "get_layer no_binaries demo_docker_image demo_layer_d
     = Inr [DockerContent (new_DockerContentScannable (JStr ''sha256:d'') motd_entry)]"
  by (simp_all add: layer_eval demo_layer_a_def demo_layer_b_def demo_layer_c_def
      demo_layer_d_def secrets_entry_def main_entry_def app_dir_entry_def lib_entry_def
      motd_entry_def)

lemma demo_cache_path: "get_layer_id_cache ''/home/u/.cache/ggshield'' ''1.29.0'' = demo_cache"
  by (simp add: get_layer_id_cache_def truediv_def Path_def demo_cache_def)

lemma demo_scans:
  "demo_scan [StringScannable n v] = Inr 0"
  "demo_scan [DockerContent (new_DockerContentScannable (JStr ''sha256:a'') secrets_entry)] = Inr 1"
  "demo_scan [DockerContent (new_DockerContentScannable (JStr ''sha256:b'') main_entry)] = Inr 0"
  by (simp_all add: demo_scan_def is_secrets_file_def new_DockerContentScannable_def
      secrets_entry_def main_entry_def)

lemma demo_scan_layers:
  "scan_layers (demo_collaborators demo_archive) demo_cache demo_docker_image
     [demo_layer_a, demo_layer_b, demo_layer_c, demo_layer_d] 0
     \<lparr>store = empty_store(demo_cache := {JStr ''sha256:d''}),
      events = [Submitted None [StringScannable ''Dockerfile or build-args'' demo_image] (Inr 0)]\<rparr>
   = (\<lparr>store = empty_store(demo_cache := {JStr ''sha256:b'', JStr ''sha256:d''}),
       events = demo_events\<rparr>, Inr 1)"
  by (simp add: scan_layers.simps(2) demo_collaborators_def demo_get_layer demo_scans
      log_event_def IDCache_contains_def IDCache_add_def Let_def demo_events_def
      demo_layer_a_def [THEN arg_cong, of diff_id] demo_layer_a_def [THEN arg_cong, of filename]
      demo_layer_b_def [THEN arg_cong, of diff_id] demo_layer_b_def [THEN arg_cong, of filename]
      demo_layer_c_def [THEN arg_cong, of diff_id] demo_layer_c_def [THEN arg_cong, of filename]
      demo_layer_d_def [THEN arg_cong, of diff_id] demo_layer_d_def [THEN arg_cong, of filename])

lemma demo_run:
  "docker_scan_archive (demo_collaborators demo_archive) ''/tmp/image.tar'' demo_state
   = (\<lparr>store = empty_store(demo_cache := {JStr ''sha256:b'', JStr ''sha256:d''}),
       events = demo_events\<rparr>,
      Inr \<lparr>sc_id = ''<tarfile.TarFile object at 0x7f3a5c0d5e50>'',
           sc_type = ''scan_docker_archive'', sc_results = 1\<rparr>)"
proof -
  have c: "secrets_engine_version (demo_collaborators demo_archive) = Some ''1.29.0''"
    "get_cache_dir (demo_collaborators demo_archive) = ''/home/u/.cache/ggshield''"
    "tarfile_open (demo_collaborators demo_archive) ''/tmp/image.tar'' = Inr demo_archive"
    "scan (demo_collaborators demo_archive) = demo_scan"
    by (simp_all add: demo_collaborators_def demo_open_def)
  have i: "config_scannable demo_docker_image
        = StringScannable ''Dockerfile or build-args'' demo_image"
    "layer_infos demo_docker_image = [demo_layer_a, demo_layer_b, demo_layer_c, demo_layer_d]"
    by (simp_all add: demo_docker_image_def)
  have s: "str_TarFile demo_archive = ''<tarfile.TarFile object at 0x7f3a5c0d5e50>''"
    by (simp add: str_TarFile_def demo_archive_def)
  show ?thesis
    by (simp add: docker_scan_archive_def c i s demo_cache_path demo_new_DockerImage demo_scans
        log_event_def demo_state_def demo_scan_layers)
qed

lemma demo_rescan_layers:
  "scan_layers (demo_collaborators demo_archive) demo_cache demo_docker_image
     [demo_layer_a, demo_layer_b, demo_layer_c, demo_layer_d] 0
     \<lparr>store = empty_store(demo_cache := {JStr ''sha256:b'', JStr ''sha256:d''}),
      events = [Submitted None [StringScannable ''Dockerfile or build-args'' demo_image] (Inr 0)]\<rparr>
   = (\<lparr>store = empty_store(demo_cache := {JStr ''sha256:b'', JStr ''sha256:d''}),
       events = demo_rescan_events\<rparr>, Inr 1)"
  by (simp add: scan_layers.simps(2) demo_collaborators_def demo_get_layer demo_scans
      log_event_def IDCache_contains_def IDCache_add_def Let_def demo_rescan_events_def
      demo_layer_a_def [THEN arg_cong, of diff_id] demo_layer_a_def [THEN arg_cong, of filename]
      demo_layer_b_def [THEN arg_cong, of diff_id] demo_layer_b_def [THEN arg_cong, of filename]
      demo_layer_c_def [THEN arg_cong, of diff_id] demo_layer_c_def [THEN arg_cong, of filename]
      demo_layer_d_def [THEN arg_cong, of diff_id] demo_layer_d_def [THEN arg_cong, of filename])

lemma demo_rescan:
  "docker_scan_archive (demo_collaborators demo_archive) ''/tmp/image.tar''
     (later_run (fst (docker_scan_archive (demo_collaborators demo_archive) ''/tmp/image.tar''
                        demo_state)))
   = (\<lparr>store = empty_store(demo_cache := {JStr ''sha256:b'', JStr ''sha256:d''}),
       events = demo_rescan_events\<rparr>,
      Inr \<lparr>sc_id = ''<tarfile.TarFile object at 0x7f3a5c0d5e50>'',
           sc_type = ''scan_docker_archive'', sc_results = 1\<rparr>)"
proof -
  have c: "secrets_engine_version (demo_collaborators demo_archive) = Some ''1.29.0''"
    "get_cache_dir (demo_collaborators demo_archive) = ''/home/u/.cache/ggshield''"
    "tarfile_open (demo_collaborators demo_archive) ''/tmp/image.tar'' = Inr demo_archive"
    "scan (demo_collaborators demo_archive) = demo_scan"
    by (simp_all add: demo_collaborators_def demo_open_def)
  have i: "config_scannable demo_docker_image
        = StringScannable ''Dockerfile or build-args'' demo_image"
    "layer_infos demo_docker_image = [demo_layer_a, demo_layer_b, demo_layer_c, demo_layer_d]"
    by (simp_all add: demo_docker_image_def)
  have s: "str_TarFile demo_archive = ''<tarfile.TarFile object at 0x7f3a5c0d5e50>''"
    by (simp add: str_TarFile_def demo_archive_def)
  have l: "later_run (fst (docker_scan_archive (demo_collaborators demo_archive)
              ''/tmp/image.tar'' demo_state))
      = \<lparr>store = empty_store(demo_cache := {JStr ''sha256:b'', JStr ''sha256:d''}),
         events = []\<rparr>"
    by (simp add: demo_run later_run_def)
  show ?thesis
    unfolding l
    by (simp add: docker_scan_archive_def c i s demo_cache_path demo_new_DockerImage demo_scans
        log_event_def demo_rescan_layers)
qed


lemma scan_aborts_on_catalog_error:
  assumes "tarfile_open c path = Inr tf" and "new_DockerImage tf = Inl e"
  shows "fst (docker_scan_archive c path st) = st"
    and "isl (snd (docker_scan_archive c path st))"
    and "secrets_engine_version c \<noteq> None \<longrightarrow> snd (docker_scan_archive c path st) = Inl e"
  using assms by (simp_all add: docker_scan_archive_def split: option.split)

text \<open>
  Claim C6, amended. When the member \<open>manifest.json\<close> exists and is not a regular file,
  or when the first entry of the manifest is a dict without the key \<open>Config\<close>,
  constructing the catalogue raises \<open>InvalidDockerArchiveException\<close>; when the
  manifest file is not JSON, it raises the error of the JSON decoder. Whenever the
  construction raises, \<open>docker_scan_archive\<close> ends with the error in the state it
  started in: no layer was opened, nothing was submitted to the scanner, and the cache is
  as it was.
\<close>

theorem malformed_manifest_aborts:
  "(extractfile tf ''manifest.json'' = Inr None
      \<longrightarrow> new_DockerImage tf = Inl (InvalidDockerArchiveException ''No manifest file found.''))
   \<and> (load_manifest tf = Inr mf \<and> subscript mf ''Config'' = Inl KeyError
      \<longrightarrow> new_DockerImage tf = Inl (InvalidDockerArchiveException ''No Config key in manifest.''))
   \<and> (extractfile tf ''manifest.json'' = Inr (Some b) \<and> json_load b = Inl e
      \<longrightarrow> new_DockerImage tf = Inl JSONDecodeError)
   \<and> (tarfile_open c path = Inr tf \<and> new_DockerImage tf = Inl e'
      \<longrightarrow> fst (docker_scan_archive c path st) = st
          \<and> isl (snd (docker_scan_archive c path st))
          \<and> (secrets_engine_version c \<noteq> None
               \<longrightarrow> snd (docker_scan_archive c path st) = Inl e'))"
proof (intro conjI impI)
  assume "extractfile tf ''manifest.json'' = Inr None"
  then show "new_DockerImage tf = Inl (InvalidDockerArchiveException ''No manifest file found.'')"
    by (simp add: new_DockerImage_def load_manifest_def)
next
  assume "load_manifest tf = Inr mf \<and> subscript mf ''Config'' = Inl KeyError"
  then show "new_DockerImage tf
      = Inl (InvalidDockerArchiveException ''No Config key in manifest.'')"
    by (simp add: new_DockerImage_def load_image_def)
next
  assume a: "extractfile tf ''manifest.json'' = Inr (Some b) \<and> json_load b = Inl e"
  then have "e = JSONDecodeError"
    by (auto simp: json_load_def split: file_body.splits)
  with a show "new_DockerImage tf = Inl JSONDecodeError"
    by (simp add: new_DockerImage_def load_manifest_def)
next
  assume a: "tarfile_open c path = Inr tf \<and> new_DockerImage tf = Inl e'"
  then show "fst (docker_scan_archive c path st) = st"
    by (simp add: scan_aborts_on_catalog_error)
  from a show "isl (snd (docker_scan_archive c path st))"
    using scan_aborts_on_catalog_error(2) [of c path tf e' st] by simp
  from a show "snd (docker_scan_archive c path st) = Inl e'"
    if "secrets_engine_version c \<noteq> None"
    using scan_aborts_on_catalog_error(3) [of c path tf e' st] that by simp
qed

theorem malformed_manifest_aborts_witness:
  "new_DockerImage directory_manifest_archive
     = Inl (InvalidDockerArchiveException ''No manifest file found.'')
   \<and> new_DockerImage no_config_archive
     = Inl (InvalidDockerArchiveException ''No Config key in manifest.'')
   \<and> new_DockerImage unparsable_manifest_archive = Inl JSONDecodeError
   \<and> docker_scan_archive (demo_collaborators no_config_archive) ''/tmp/image.tar'' demo_state
     = (demo_state, Inl (InvalidDockerArchiveException ''No Config key in manifest.''))"
proof -
  have h1: "extractfile directory_manifest_archive ''manifest.json'' = Inr None"
    by (simp add: extractfile_def getmember_def rstrip_slash_def directory_manifest_archive_def)
  have h2: "load_manifest no_config_archive = Inr (JObj [(''Layers'', JArr [JStr ''a/layer.tar''])])
      \<and> subscript (JObj [(''Layers'', JArr [JStr ''a/layer.tar''])]) ''Config'' = Inl KeyError"
    by (simp add: archive_eval no_config_archive_def)
  have h3: "extractfile unparsable_manifest_archive ''manifest.json'' = Inr (Some Garbage)
      \<and> json_load Garbage = Inl JSONDecodeError"
    by (simp add: archive_eval unparsable_manifest_archive_def)
  have r1: "new_DockerImage directory_manifest_archive
     = Inl (InvalidDockerArchiveException ''No manifest file found.'')"
    by (rule malformed_manifest_aborts [where tf = directory_manifest_archive,
          THEN conjunct1, THEN mp, OF h1])
  have r2: "new_DockerImage no_config_archive
     = Inl (InvalidDockerArchiveException ''No Config key in manifest.'')"
    by (rule malformed_manifest_aborts [where tf = no_config_archive,
          THEN conjunct2, THEN conjunct1, THEN mp, OF h2])
  have r3: "new_DockerImage unparsable_manifest_archive = Inl JSONDecodeError"
    by (rule malformed_manifest_aborts [where tf = unparsable_manifest_archive,
          THEN conjunct2, THEN conjunct2, THEN conjunct1, THEN mp, OF h3])
  have h4: "tarfile_open (demo_collaborators no_config_archive) ''/tmp/image.tar''
        = Inr no_config_archive
      \<and> new_DockerImage no_config_archive
        = Inl (InvalidDockerArchiveException ''No Config key in manifest.'')"
    using r2 by (simp add: demo_collaborators_def demo_open_def)
  note t = malformed_manifest_aborts [where tf = no_config_archive
      and c = "demo_collaborators no_config_archive" and path = "''/tmp/image.tar''"
      and st = demo_state,
      THEN conjunct2, THEN conjunct2, THEN conjunct2, THEN mp, OF h4]
  have v: "secrets_engine_version (demo_collaborators no_config_archive) \<noteq> None"
    by (simp add: demo_collaborators_def)
  from t v have "fst (docker_scan_archive (demo_collaborators no_config_archive)
        ''/tmp/image.tar'' demo_state) = demo_state"
    and "snd (docker_scan_archive (demo_collaborators no_config_archive)
        ''/tmp/image.tar'' demo_state)
        = Inl (InvalidDockerArchiveException ''No Config key in manifest.'')"
    by simp_all
  then have r4: "docker_scan_archive (demo_collaborators no_config_archive) ''/tmp/image.tar''
        demo_state
     = (demo_state, Inl (InvalidDockerArchiveException ''No Config key in manifest.''))"
    by (simp add: prod_eq_iff)
  from r1 r2 r3 r4 show ?thesis by (intro conjI)
qed

theorem unparsable_manifest_counterexample:
  "docker_scan_archive (demo_collaborators unparsable_manifest_archive) ''/tmp/image.tar''
     demo_state
   = (demo_state, Inl JSONDecodeError)"
  by (simp add: docker_scan_archive_def demo_collaborators_def demo_open_def
      new_DockerImage_def archive_eval unparsable_manifest_archive_def)

text \<open>
  Claim C9. The collection returned for the archive at \<open>/tmp/image.tar\<close> carries as its
  identifier the default text of the \<open>TarFile\<close> object, with the address of the object,
  and not the path of the archive.
\<close>

theorem scan_collection_id_is_object_text:
  "snd (docker_scan_archive (demo_collaborators demo_archive) ''/tmp/image.tar'' demo_state)
   = Inr \<lparr>sc_id = ''<tarfile.TarFile object at 0x7f3a5c0d5e50>'',
          sc_type = ''scan_docker_archive'', sc_results = 1\<rparr>"
  by (simp add: demo_run)

end
